theory Spec2Isabelle
  imports Main "HOL-Library.Char_ord" "HOL-Library.List_Lexorder"
begin

section \<open>JavaScript values and strings\<close>

text \<open>
  Request bodies and query parameters are parsed JSON, so a field can hold any JSON value
  or be missing. In the handlers a JavaScript string is a \<^typ>\<open>string\<close> whose characters are
  the code units below 256 (ASCII and Latin-1). Numbers are the integral ones; the handlers
  only ask whether a number is zero and whether its text is blank.
\<close>

datatype jsval =
    JUndefined
  | JNull
  | JBool bool
  | JNum int
  | JStr string
  | JArr "jsval list"
  | JObj "(string \<times> jsval) list"

text \<open>Truthiness, as in \<^verbatim>\<open>if (v)\<close>, \<^verbatim>\<open>!v\<close>, \<^verbatim>\<open>v && w\<close>, \<^verbatim>\<open>v || w\<close>.\<close>

fun js_truthy :: "jsval \<Rightarrow> bool" where
  "js_truthy JUndefined = False"
| "js_truthy JNull = False"
| "js_truthy (JBool b) = b"
| "js_truthy (JNum n) = (n \<noteq> 0)"
| "js_truthy (JStr s) = (s \<noteq> [])"
| "js_truthy (JArr xs) = True"
| "js_truthy (JObj kvs) = True"

text \<open>\<^verbatim>\<open>typeof v === 'string'\<close> and \<^verbatim>\<open>typeof v === 'object'\<close> (null and arrays are objects).\<close>

fun is_string :: "jsval \<Rightarrow> bool" where
  "is_string (JStr s) = True"
| "is_string v = False"

fun str_of :: "jsval \<Rightarrow> string" where
  "str_of (JStr s) = s"
| "str_of v = []"

fun typeof_object :: "jsval \<Rightarrow> bool" where
  "typeof_object JNull = True"
| "typeof_object (JArr xs) = True"
| "typeof_object (JObj kvs) = True"
| "typeof_object v = False"

text \<open>Reading a property, as the destructuring \<^verbatim>\<open>const { email } = raw\<close> does: a missing
  property, and any property of a value that is not a plain object, is undefined. An object
  is the list of its properties, each name once.\<close>

fun js_field :: "jsval \<Rightarrow> string \<Rightarrow> jsval" where
  "js_field (JObj kvs) k = (case map_of kvs k of Some v \<Rightarrow> v | None \<Rightarrow> JUndefined)"
| "js_field v k = JUndefined"

text \<open>A nullable string result (\<^verbatim>\<open>string | null\<close>) is a \<^typ>\<open>string option\<close>; it is truthy
  when it is a non-empty string, and it goes back to a JavaScript value by \<open>js_of\<close>.\<close>

fun truthy_opt :: "string option \<Rightarrow> bool" where
  "truthy_opt None = False"
| "truthy_opt (Some s) = (s \<noteq> [])"

fun js_of :: "string option \<Rightarrow> jsval" where
  "js_of None = JNull"
| "js_of (Some s) = JStr s"

subsection \<open>String primitives\<close>

text \<open>White space of \<^verbatim>\<open>String.prototype.trim\<close> and of the regular expression class \<^verbatim>\<open>\s\<close>
  among the code units below 256: tab, line feed, vertical tab, form feed, carriage return,
  space and no-break space. (The white space above 255, such as U+2028, U+3000 and U+FEFF,
  is outside this alphabet.)\<close>

definition js_space :: "char \<Rightarrow> bool" where
  "js_space c = (c \<in> set [CHR 0x09, CHR 0x0A, CHR 0x0B, CHR 0x0C, CHR 0x0D, CHR 0x20, CHR 0xA0])"

definition js_trim :: "string \<Rightarrow> string" where
  "js_trim s = rev (dropWhile js_space (rev (dropWhile js_space s)))"

text \<open>\<^verbatim>\<open>toLowerCase\<close> on code units below 256: the letters A to Z and the Latin-1 capitals
  (0xC0 to 0xDE without the multiplication sign 0xD7) move up by 32. (Mappings that change
  the length of a string or depend on the neighbours, such as those of U+0130 and of the
  Greek capital sigma, are outside this alphabet.)\<close>

definition js_upper :: "char \<Rightarrow> bool" where
  "js_upper c = (let n = (of_char c :: nat) in
     (65 \<le> n \<and> n \<le> 90) \<or> (192 \<le> n \<and> n \<le> 222 \<and> n \<noteq> 215))"

definition lower_char :: "char \<Rightarrow> char" where
  "lower_char c = (if js_upper c then char_of ((of_char c :: nat) + 32) else c)"

definition toLowerCase :: "string \<Rightarrow> string" where
  "toLowerCase s = map lower_char s"

text \<open>\<^verbatim>\<open>s.replace(/\s+/g, ' ')\<close>: every maximal run of white space becomes one space.\<close>

function collapse_ws :: "string \<Rightarrow> string" where
  "collapse_ws [] = []"
| "collapse_ws (c # cs) =
     (if js_space c then CHR '' '' # collapse_ws (dropWhile js_space cs)
      else c # collapse_ws cs)"
  by pat_completeness auto
termination
  by (relation "measure length") (auto simp: length_dropWhile_le less_Suc_eq_le)

text \<open>\<^verbatim>\<open>s.replace(/^www\./i, '')\<close>: a leading \<^verbatim>\<open>www.\<close> in any letter case is removed once.\<close>

fun strip_www :: "string \<Rightarrow> string" where
  "strip_www (a # b # c # d # rest) =
     (if (a = CHR ''w'' \<or> a = CHR ''W'') \<and> (b = CHR ''w'' \<or> b = CHR ''W'')
         \<and> (c = CHR ''w'' \<or> c = CHR ''W'') \<and> d = CHR ''.''
      then rest else a # b # c # d # rest)"
| "strip_www s = s"

text \<open>\<^verbatim>\<open>s.startsWith('http')\<close>, \<^verbatim>\<open>s.includes('@')\<close> and \<^verbatim>\<open>s.split('@')[1]\<close> (for a string
  that includes the separator: the text between the first and the second \<^verbatim>\<open>@\<close>).\<close>

definition startsWith_http :: "string \<Rightarrow> bool" where
  "startsWith_http s = (take 4 s = ''http'')"

definition includes_at :: "string \<Rightarrow> bool" where
  "includes_at s = (CHR ''@'' \<in> set s)"

definition split_at_1 :: "string \<Rightarrow> string" where
  "split_at_1 s = takeWhile (\<lambda>c. c \<noteq> CHR ''@'') (tl (dropWhile (\<lambda>c. c \<noteq> CHR ''@'') s))"

section \<open>Identity normalizer\<close>

text \<open>
  \<^verbatim>\<open>
  function normalizeEmail(email) {
    if (!email || typeof email !== 'string') return null;
    const trimmed = email.trim().toLowerCase();
    return trimmed || null;
  }
  function normalizeName(name) {
    if (!name || typeof name !== 'string') return null;
    const trimmed = name.trim().toLowerCase().replace(/\s+/g, ' ');
    return trimmed || null;
  }
  \<close>
\<close>

definition normalizeEmail :: "jsval \<Rightarrow> string option" where
  "normalizeEmail email =
     (if js_truthy email \<and> is_string email
      then (let trimmed = toLowerCase (js_trim (str_of email))
            in if trimmed = [] then None else Some trimmed)
      else None)"

definition normalizeName :: "jsval \<Rightarrow> string option" where
  "normalizeName name =
     (if js_truthy name \<and> is_string name
      then (let trimmed = collapse_ws (toLowerCase (js_trim (str_of name)))
            in if trimmed = [] then None else Some trimmed)
      else None)"

text \<open>
  \<^verbatim>\<open>new URL(url).hostname\<close> belongs to the platform. It is a parameter \<open>hostname\<close> of the
  model: \<open>hostname url\<close> is \<open>None\<close> when the constructor throws and the host name otherwise.
  \<^verbatim>\<open>
  function extractDomainFromWebsiteOrEmail(website, email) {
    if (website && typeof website === 'string') {
      const value = website.trim();
      if (value) {
        try {
          const url = value.startsWith('http') ? value : `https://${value}`;
          const parsed = new URL(url);
          const host = parsed.hostname.replace(/^www\./i, '');
          if (host) return host.toLowerCase();
        } catch (e) { }
      }
    }
    if (email && typeof email === 'string' && email.includes('@')) {
      const domainPart = email.split('@')[1]?.trim();
      if (domainPart) return domainPart.replace(/^www\./i, '').toLowerCase();
    }
    return null;
  }
  \<close>
\<close>

definition domain_from_website :: "(string \<Rightarrow> string option) \<Rightarrow> jsval \<Rightarrow> string option" where
  "domain_from_website hostname website =
     (if js_truthy website \<and> is_string website
      then (let v = js_trim (str_of website) in
            if v = [] then None
            else (case hostname (if startsWith_http v then v else ''https://'' @ v) of
                    None \<Rightarrow> None
                  | Some h \<Rightarrow>
                      (let host = strip_www h in
                       if host = [] then None else Some (toLowerCase host))))
      else None)"

definition domain_from_email :: "jsval \<Rightarrow> string option" where
  "domain_from_email email =
     (if js_truthy email \<and> is_string email \<and> includes_at (str_of email)
      then (let domainPart = js_trim (split_at_1 (str_of email)) in
            if domainPart = [] then None else Some (toLowerCase (strip_www domainPart)))
      else None)"

definition extractDomainFromWebsiteOrEmail ::
  "(string \<Rightarrow> string option) \<Rightarrow> jsval \<Rightarrow> jsval \<Rightarrow> string option" where
  "extractDomainFromWebsiteOrEmail hostname website email =
     (case domain_from_website hostname website of
        Some d \<Rightarrow> Some d
      | None \<Rightarrow> domain_from_email email)"


section \<open>The normalizers over any alphabet\<close>

text \<open>
  A JavaScript string is a sequence of UTF-16 code units. The two normalizers are given
  here once more for strings over an arbitrary type \<open>'u\<close> of code units, with the
  operations of the platform as parameters: \<open>lower\<close> is \<^verbatim>\<open>String.prototype.toLowerCase\<close>,
  a function on whole strings (it may change the length of a string and look at the
  neighbours of a letter); \<open>space\<close> tells the code units that \<^verbatim>\<open>trim\<close> and \<^verbatim>\<open>\s\<close> take for
  white space; \<open>blank\<close> is the space U+0020 that \<^verbatim>\<open>replace(/\s+/g, ' ')\<close> writes.
  The normalizers of the previous section are the instance for code units below 256.

  The argument is a string or not: the first line of both functions returns null for
  every value that is not a string (undefined, null, booleans, numbers, arrays, objects)
  without looking at it further.
\<close>

datatype 'u js_input = NotAString | Str "'u list"

fun input_of :: "jsval \<Rightarrow> char js_input" where
  "input_of (JStr s) = Str s"
| "input_of v = NotAString"

text \<open>The result, string or null, as the argument of a second call.\<close>

fun input_of_result :: "'u list option \<Rightarrow> 'u js_input" where
  "input_of_result None = NotAString"
| "input_of_result (Some t) = Str t"

text \<open>\<^verbatim>\<open>s.trim()\<close> and \<^verbatim>\<open>s.replace(/\s+/g, ' ')\<close> for the white space \<open>space\<close>.\<close>

definition trim_by :: "('u \<Rightarrow> bool) \<Rightarrow> 'u list \<Rightarrow> 'u list" where
  "trim_by space s = rev (dropWhile space (rev (dropWhile space s)))"

function collapse_by :: "('u \<Rightarrow> bool) \<Rightarrow> 'u \<Rightarrow> 'u list \<Rightarrow> 'u list" where
  "collapse_by space blank [] = []"
| "collapse_by space blank (c # cs) =
     (if space c then blank # collapse_by space blank (dropWhile space cs)
      else c # collapse_by space blank cs)"
  by pat_completeness auto
termination
  by (relation "measure (\<lambda>(space, blank, s). length s)")
     (auto simp: length_dropWhile_le less_Suc_eq_le)

text \<open>
  \<^verbatim>\<open>
  if (!email || typeof email !== 'string') return null;
  const trimmed = email.trim().toLowerCase();
  return trimmed || null;
  \<close>
  and the same for a name, with \<^verbatim>\<open>.replace(/\s+/g, ' ')\<close> after the lower-casing.
\<close>

definition normalizeEmail_by ::
  "('u list \<Rightarrow> 'u list) \<Rightarrow> ('u \<Rightarrow> bool) \<Rightarrow> 'u js_input \<Rightarrow> 'u list option" where
  "normalizeEmail_by lower space email =
     (case email of
        NotAString \<Rightarrow> None
      | Str s \<Rightarrow>
          (if s = [] then None
           else (let trimmed = lower (trim_by space s)
                 in if trimmed = [] then None else Some trimmed)))"

definition normalizeName_by ::
  "('u list \<Rightarrow> 'u list) \<Rightarrow> ('u \<Rightarrow> bool) \<Rightarrow> 'u \<Rightarrow> 'u js_input \<Rightarrow> 'u list option" where
  "normalizeName_by lower space blank name =
     (case name of
        NotAString \<Rightarrow> None
      | Str s \<Rightarrow>
          (if s = [] then None
           else (let trimmed = collapse_by space blank (lower (trim_by space s))
                 in if trimmed = [] then None else Some trimmed)))"

text \<open>A text without white space at either end.\<close>

definition trimmed_by :: "('u \<Rightarrow> bool) \<Rightarrow> 'u list \<Rightarrow> bool" where
  "trimmed_by space s = (s = [] \<or> (\<not> space (hd s) \<and> \<not> space (last s)))"

text \<open>
  What the properties below need of the platform: the blank is white space; lower-casing
  a lower-cased text changes nothing; lower-casing keeps a text free of white space at
  its ends so; and a text that lower-casing leaves alone is still left alone after its
  runs of white space have been replaced by blanks.
\<close>

definition platform_text :: "('u list \<Rightarrow> 'u list) \<Rightarrow> ('u \<Rightarrow> bool) \<Rightarrow> 'u \<Rightarrow> bool" where
  "platform_text lower space blank =
     (space blank
      \<and> (\<forall>x. lower (lower x) = lower x)
      \<and> (\<forall>x. trimmed_by space x \<longrightarrow> trimmed_by space (lower x))
      \<and> (\<forall>y. lower y = y \<longrightarrow> lower (collapse_by space blank y) = collapse_by space blank y))"

text \<open>A parser instance for running the model on concrete requests. It covers the plain
  forms \<^verbatim>\<open>http://host...\<close> and \<^verbatim>\<open>https://host...\<close> with a host of letters, digits, dots
  and hyphens and no user name, where the platform parser returns the host in lower case;
  it is applied to such texts only.\<close>

definition plain_hostname :: "string \<Rightarrow> string option" where
  "plain_hostname url =
     (if take 8 url = ''https://''
      then Some (toLowerCase (takeWhile (\<lambda>c. c \<notin> set ''/?#:'') (drop 8 url)))
      else if take 7 url = ''http://''
      then Some (toLowerCase (takeWhile (\<lambda>c. c \<notin> set ''/?#:'') (drop 7 url)))
      else None)"

subsection \<open>Text of a value\<close>

text \<open>\<^verbatim>\<open>String(v)\<close>, and \<^verbatim>\<open>Array.prototype.join(',')\<close> for arrays: null and undefined
  elements of an array give the empty text. An object is taken to have no \<^verbatim>\<open>toString\<close>
  property of its own, so that its text is \<^verbatim>\<open>[object Object]\<close>.\<close>

fun nat_text :: "nat \<Rightarrow> string" where
  "nat_text n =
     (if n < 10 then [''0123456789'' ! n]
      else nat_text (n div 10) @ [''0123456789'' ! (n mod 10)])"

declare nat_text.simps [simp del]

definition int_text :: "int \<Rightarrow> string" where
  "int_text i = (if i < 0 then CHR ''-'' # nat_text (nat (- i)) else nat_text (nat i))"

fun join_comma :: "string list \<Rightarrow> string" where
  "join_comma [] = []"
| "join_comma [s] = s"
| "join_comma (s # t # ss) = s @ '','' @ join_comma (t # ss)"

fun js_String :: "jsval \<Rightarrow> string" where
  "js_String JUndefined = ''undefined''"
| "js_String JNull = ''null''"
| "js_String (JBool b) = (if b then ''true'' else ''false'')"
| "js_String (JNum n) = int_text n"
| "js_String (JStr s) = s"
| "js_String (JArr xs) =
     join_comma (map (\<lambda>v. if v = JUndefined \<or> v = JNull then [] else js_String v) xs)"
| "js_String (JObj kvs) = ''[object Object]''"

section \<open>Storage\<close>

text \<open>
  The tables \<^verbatim>\<open>prospects\<close> and \<^verbatim>\<open>prospect_notes\<close> of \<^verbatim>\<open>db.js\<close>, rows in insertion order.
  A column holds the value bound to it (the conversions of the engine's column types are
  not modelled); the columns the handlers compute themselves are nullable strings.
  Statements are taken to succeed unless they violate the primary key.

  \<^verbatim>\<open>prospect_notes\<close> declares \<^verbatim>\<open>FOREIGN KEY (prospectId) REFERENCES prospects(id) ON DELETE
  CASCADE\<close>. SQLite runs foreign-key actions only on a connection that has executed
  \<^verbatim>\<open>PRAGMA foreign_keys = ON\<close>; \<^verbatim>\<open>getDb\<close> opens the connection with
  \<^verbatim>\<open>new sqlite3.Database(dbPath)\<close> and no statement of the repository sets the pragma, so a
  delete from \<^verbatim>\<open>prospects\<close> touches that table only.
\<close>

record prospect =
  row_id :: string
  sourceId :: jsval
  companyName :: jsval
  contactName :: jsval
  role :: jsval
  email :: jsval
  phone :: jsval
  website :: jsval
  tags :: jsval
  status :: jsval
  ownerName :: jsval
  archivedAt :: "string option"
  normalizedEmail :: "string option"
  normalizedDomain :: "string option"
  normalizedContactName :: "string option"
  origin :: string
  suppressedAt :: "string option"
  createdAt :: string
  updatedAt :: "string option"
  lastContactedAt :: "string option"

record prospect_note =
  note_id :: string
  prospectId :: string
  note_type :: "string option"
  note_text :: string
  note_createdAt :: string

record database =
  prospects :: "prospect list"
  prospect_notes :: "prospect_note list"

text \<open>\<^verbatim>\<open>SELECT ... FROM prospects WHERE normalizedEmail = ? LIMIT 1\<close> and its siblings.\<close>

definition select_by_email :: "database \<Rightarrow> string \<Rightarrow> prospect option" where
  "select_by_email db e = find (\<lambda>r. normalizedEmail r = Some e) (prospects db)"

definition select_by_domain_name :: "database \<Rightarrow> string \<Rightarrow> string \<Rightarrow> prospect option" where
  "select_by_domain_name db d n =
     find (\<lambda>r. normalizedDomain r = Some d \<and> normalizedContactName r = Some n) (prospects db)"

definition getProspectById :: "database \<Rightarrow> string \<Rightarrow> prospect option" where
  "getProspectById db i = find (\<lambda>r. row_id r = i) (prospects db)"

text \<open>\<^verbatim>\<open>INSERT INTO prospects\<close>: \<open>None\<close> is the constraint error of a primary key that is
  already in the table.\<close>

definition insert_prospect :: "database \<Rightarrow> prospect \<Rightarrow> database option" where
  "insert_prospect db row =
     (if row_id row \<in> set (map row_id (prospects db)) then None
      else Some (db\<lparr>prospects := prospects db @ [row]\<rparr>))"

text \<open>\<^verbatim>\<open>DELETE FROM prospects WHERE id = ?\<close>, with the number of rows changed.\<close>

definition delete_prospect :: "database \<Rightarrow> string \<Rightarrow> nat \<times> database" where
  "delete_prospect db i =
     (length (filter (\<lambda>r. row_id r = i) (prospects db)),
      db\<lparr>prospects := filter (\<lambda>r. row_id r \<noteq> i) (prospects db)\<rparr>)"

text \<open>\<^verbatim>\<open>UPDATE prospects SET <column> = <value> WHERE id = ?\<close>, with the number of rows
  changed.\<close>

definition update_prospect ::
  "database \<Rightarrow> string \<Rightarrow> (prospect \<Rightarrow> prospect) \<Rightarrow> nat \<times> database" where
  "update_prospect db i f =
     (length (filter (\<lambda>r. row_id r = i) (prospects db)),
      db\<lparr>prospects := map (\<lambda>r. if row_id r = i then f r else r) (prospects db)\<rparr>)"

section \<open>Responses\<close>

datatype body =
    ErrorBody string
  | DuplicateBody string
  | RowBody "prospect option"
  | RowsBody "prospect list"
  | DeletedBody string

record response =
  status_code :: nat
  headers :: "(string \<times> string) list"
  body :: body

text \<open>\<^verbatim>\<open>res.status(n).json(b)\<close>; no handler of the repository sets a response header.\<close>

definition respond :: "nat \<Rightarrow> body \<Rightarrow> response" where
  "respond n b = \<lparr>status_code = n, headers = [], body = b\<rparr>"


section \<open>Duplicate check of the single-create path\<close>

text \<open>
  \<^verbatim>\<open>checkDuplicateProspect({ normalizedEmail, normalizedDomain, normalizedContactName })\<close>:
  with an email key the email query runs first and, when it finds no row, the domain and
  name query runs if both values are present; without an email key only the domain and
  name query runs. The promise resolves with the row found, or with null.
\<close>

definition checkDuplicateProspect ::
  "database \<Rightarrow> string option \<Rightarrow> string option \<Rightarrow> string option \<Rightarrow> prospect option" where
  "checkDuplicateProspect db ne nd nn =
     (if truthy_opt ne
      then (case select_by_email db (the ne) of
              Some row \<Rightarrow> Some row
            | None \<Rightarrow>
                (if truthy_opt nd \<and> truthy_opt nn
                 then select_by_domain_name db (the nd) (the nn)
                 else None))
      else if truthy_opt nd \<and> truthy_opt nn
      then select_by_domain_name db (the nd) (the nn)
      else None)"

section \<open>Single create: POST /prospects\<close>

text \<open>\<^verbatim>\<open>v || null\<close>, \<^verbatim>\<open>v ?? null\<close>, and the origin default
  \<^verbatim>\<open>origin && typeof origin === 'string' && origin.trim() ? origin.trim() : dflt\<close>.\<close>

definition or_null :: "jsval \<Rightarrow> jsval" where
  "or_null v = (if js_truthy v then v else JNull)"

definition nullish_null :: "jsval \<Rightarrow> jsval" where
  "nullish_null v = (if v = JUndefined then JNull else v)"

definition origin_or :: "jsval \<Rightarrow> string \<Rightarrow> string" where
  "origin_or v dflt =
     (if js_truthy v \<and> is_string v \<and> js_trim (str_of v) \<noteq> []
      then js_trim (str_of v) else dflt)"

fun is_array :: "jsval \<Rightarrow> bool" where
  "is_array (JArr xs) = True"
| "is_array v = False"

text \<open>The row that \<^verbatim>\<open>POST /prospects\<close> binds to its INSERT statement; \<open>new_id\<close> is the
  result of \<^verbatim>\<open>generateId('pros')\<close> and \<open>now\<close> that of \<^verbatim>\<open>datetime('now')\<close>.\<close>

definition single_row ::
  "(string \<Rightarrow> string option) \<Rightarrow> string \<Rightarrow> string \<Rightarrow> jsval \<Rightarrow> prospect" where
  "single_row hostname new_id now b =
     \<lparr> row_id = new_id,
       sourceId = or_null (js_field b ''sourceId''),
       companyName = or_null (js_field b ''companyName''),
       contactName = or_null (js_field b ''contactName''),
       role = or_null (js_field b ''role''),
       email = or_null (js_field b ''email''),
       phone = or_null (js_field b ''phone''),
       website = or_null (js_field b ''website''),
       tags = (if is_array (js_field b ''tags'') then JStr (js_String (js_field b ''tags''))
               else or_null (js_field b ''tags'')),
       status = (if js_truthy (js_field b ''status'') then js_field b ''status''
                 else JStr ''uncontacted''),
       ownerName = or_null (js_field b ''ownerName''),
       archivedAt = None,
       normalizedEmail = normalizeEmail (js_field b ''email''),
       normalizedDomain =
         extractDomainFromWebsiteOrEmail hostname (js_field b ''website'') (js_field b ''email''),
       normalizedContactName = normalizeName (js_field b ''contactName''),
       origin = origin_or (js_field b ''origin'') ''manual'',
       suppressedAt = None,
       createdAt = now,
       updatedAt = None,
       lastContactedAt = None \<rparr>"

text \<open>The handler: 409 with the id of the row the duplicate check found, else the INSERT
  (500 when it fails) and 201 with the row read back by id.\<close>

definition POST_prospects ::
  "(string \<Rightarrow> string option) \<Rightarrow> string \<Rightarrow> string \<Rightarrow> jsval \<Rightarrow> database
     \<Rightarrow> response \<times> database" where
  "POST_prospects hostname new_id now req_body db =
     (let b = (if js_truthy req_body then req_body else JObj []);
          row = single_row hostname new_id now b
      in case checkDuplicateProspect db (normalizedEmail row) (normalizedDomain row)
              (normalizedContactName row) of
           Some existing \<Rightarrow> (respond 409 (DuplicateBody (row_id existing)), db)
         | None \<Rightarrow>
             (case insert_prospect db row of
                None \<Rightarrow> (respond 500 (ErrorBody ''Failed to create prospect''), db)
              | Some db' \<Rightarrow> (respond 201 (RowBody (getProspectById db' new_id)), db')))"

section \<open>Listing: GET /prospects\<close>

record list_query =
  q_status :: jsval
  q_sourceId :: jsval
  q_ownerName :: jsval
  q_search :: jsval
  q_archived :: jsval
  q_suppressed :: jsval

text \<open>\<^verbatim>\<open>v && typeof v === 'string' && v.trim() !== ''\<close> guards each optional filter, which
  then compares with \<^verbatim>\<open>v.trim()\<close>.\<close>

definition text_filter :: "jsval \<Rightarrow> string option" where
  "text_filter v =
     (if js_truthy v \<and> is_string v \<and> js_trim (str_of v) \<noteq> []
      then Some (js_trim (str_of v)) else None)"

text \<open>The WHERE clause. The operator LIKE of the storage engine is the parameter \<open>like\<close>
  (pattern first).\<close>

definition where_clause ::
  "(string \<Rightarrow> jsval \<Rightarrow> bool) \<Rightarrow> list_query \<Rightarrow> prospect \<Rightarrow> bool" where
  "where_clause like q r =
     ((if q_archived q = JStr ''1'' then archivedAt r \<noteq> None else archivedAt r = None)
      \<and> (if q_suppressed q = JStr ''1'' then suppressedAt r \<noteq> None else suppressedAt r = None)
      \<and> (case text_filter (q_status q) of None \<Rightarrow> True | Some t \<Rightarrow> status r = JStr t)
      \<and> (case text_filter (q_sourceId q) of None \<Rightarrow> True | Some t \<Rightarrow> sourceId r = JStr t)
      \<and> (case text_filter (q_ownerName q) of None \<Rightarrow> True | Some t \<Rightarrow> ownerName r = JStr t)
      \<and> (case text_filter (q_search q) of
            None \<Rightarrow> True
          | Some t \<Rightarrow>
              like (''%'' @ t @ ''%'') (companyName r) \<or> like (''%'' @ t @ ''%'') (contactName r)
              \<or> like (''%'' @ t @ ''%'') (email r)))"

text \<open>\<^verbatim>\<open>SELECT * FROM prospects WHERE ... ORDER BY createdAt DESC\<close>, answered with 200. The
  order among rows with the same \<^verbatim>\<open>createdAt\<close> is the engine's and is not modelled.\<close>

definition GET_prospects ::
  "(string \<Rightarrow> jsval \<Rightarrow> bool) \<Rightarrow> list_query \<Rightarrow> database \<Rightarrow> response" where
  "GET_prospects like q db =
     respond 200 (RowsBody (rev (sort_key createdAt (filter (where_clause like q) (prospects db)))))"

section \<open>Lifecycle: archive, restore, suppress, unsuppress, delete\<close>

definition lifecycle_update ::
  "(prospect \<Rightarrow> prospect) \<Rightarrow> string \<Rightarrow> database \<Rightarrow> response \<times> database" where
  "lifecycle_update f i db =
     (case update_prospect db i f of
        (changes, db') \<Rightarrow>
          (if changes = 0 then (respond 404 (ErrorBody ''Prospect not found''), db')
           else (respond 200 (RowBody (getProspectById db' i)), db')))"

definition PATCH_archive :: "string \<Rightarrow> string \<Rightarrow> database \<Rightarrow> response \<times> database" where
  "PATCH_archive now i db = lifecycle_update (\<lambda>r. r\<lparr>archivedAt := Some now\<rparr>) i db"

definition PATCH_restore :: "string \<Rightarrow> database \<Rightarrow> response \<times> database" where
  "PATCH_restore i db = lifecycle_update (\<lambda>r. r\<lparr>archivedAt := None\<rparr>) i db"

definition PATCH_suppress :: "string \<Rightarrow> string \<Rightarrow> database \<Rightarrow> response \<times> database" where
  "PATCH_suppress now i db = lifecycle_update (\<lambda>r. r\<lparr>suppressedAt := Some now\<rparr>) i db"

definition PATCH_unsuppress :: "string \<Rightarrow> database \<Rightarrow> response \<times> database" where
  "PATCH_unsuppress i db = lifecycle_update (\<lambda>r. r\<lparr>suppressedAt := None\<rparr>) i db"

text \<open>
  \<^verbatim>\<open>
  const prospect = await getProspectById(id);
  if (!prospect) return res.status(404).json({ error: 'Prospect not found' });
  if (!prospect.archivedAt)
    return res.status(400).json({ error: 'Prospect must be archived before deletion' });
  db.run(`DELETE FROM prospects WHERE id = ?`, [id], function (err) {
    ...
    if (this.changes === 0) return res.status(404).json({ error: 'Prospect not found' });
    return res.json({ success: true, deletedId: id });
  });
  \<close>
\<close>

definition DELETE_prospect :: "string \<Rightarrow> database \<Rightarrow> response \<times> database" where
  "DELETE_prospect i db =
     (case getProspectById db i of
        None \<Rightarrow> (respond 404 (ErrorBody ''Prospect not found''), db)
      | Some p \<Rightarrow>
          (if truthy_opt (archivedAt p)
           then (case delete_prospect db i of
                   (changes, db') \<Rightarrow>
                     (if changes = 0 then (respond 404 (ErrorBody ''Prospect not found''), db')
                      else (respond 200 (DeletedBody i), db')))
           else (respond 400 (ErrorBody ''Prospect must be archived before deletion''), db)))"


section \<open>Bulk import: POST /sources/:sourceId/prospects/bulk\<close>

text \<open>
  The snapshot of the table, loaded once:
  \<^verbatim>\<open>
  for (const row of rows || []) {
    if (row.normalizedEmail) {
      existingLookup.set(`email:${row.normalizedEmail}`, row.id);
      if (row.suppressedAt) suppressedLookup.add(`email:${row.normalizedEmail}`);
    }
    if (row.normalizedDomain && row.normalizedContactName) {
      const key = `dn:${row.normalizedDomain}:${row.normalizedContactName}`;
      existingLookup.set(key, row.id);
      if (row.suppressedAt) suppressedLookup.add(key);
    }
  }
  \<close>
  The candidate's keys have the same shapes:
  \<^verbatim>\<open>
  const keyEmail = normalizedEmail ? `email:${normalizedEmail}` : null;
  const keyDomain = normalizedDomain && normalizedContactName
      ? `dn:${normalizedDomain}:${normalizedContactName}` : null;
  \<close>
\<close>

definition keyEmail :: "string option \<Rightarrow> string option" where
  "keyEmail ne = (if truthy_opt ne then Some (''email:'' @ the ne) else None)"

definition keyDomain :: "string option \<Rightarrow> string option \<Rightarrow> string option" where
  "keyDomain nd nn =
     (if truthy_opt nd \<and> truthy_opt nn then Some (''dn:'' @ the nd @ '':'' @ the nn) else None)"

definition set_key ::
  "string option \<Rightarrow> string \<Rightarrow> (string \<rightharpoonup> string) \<Rightarrow> (string \<rightharpoonup> string)" where
  "set_key k v m = (case k of None \<Rightarrow> m | Some key \<Rightarrow> m(key \<mapsto> v))"

definition add_key :: "string option \<Rightarrow> string set \<Rightarrow> string set" where
  "add_key k S = (case k of None \<Rightarrow> S | Some key \<Rightarrow> insert key S)"

definition lookup_row ::
  "prospect \<Rightarrow> (string \<rightharpoonup> string) \<times> string set \<Rightarrow> (string \<rightharpoonup> string) \<times> string set" where
  "lookup_row row ls =
     (case ls of (existingLookup, suppressedLookup) \<Rightarrow>
        (let ke = keyEmail (normalizedEmail row);
             kd = keyDomain (normalizedDomain row) (normalizedContactName row)
         in (set_key kd (row_id row) (set_key ke (row_id row) existingLookup),
             (if truthy_opt (suppressedAt row) then add_key kd (add_key ke suppressedLookup)
              else suppressedLookup))))"

definition build_lookups :: "prospect list \<Rightarrow> (string \<rightharpoonup> string) \<times> string set" where
  "build_lookups rows = fold lookup_row rows (Map.empty, {})"

text \<open>\<^verbatim>\<open>k && m.has(k)\<close> for a map and for a set.\<close>

definition map_has :: "(string \<rightharpoonup> string) \<Rightarrow> string option \<Rightarrow> bool" where
  "map_has m k = (case k of None \<Rightarrow> False | Some key \<Rightarrow> m key \<noteq> None)"

definition set_has :: "string set \<Rightarrow> string option \<Rightarrow> bool" where
  "set_has S k = (case k of None \<Rightarrow> False | Some key \<Rightarrow> key \<in> S)"

text \<open>
  \<^verbatim>\<open>
  const duplicateKey =
    (keyEmail && existingLookup.has(keyEmail)) || (keyDomain && existingLookup.has(keyDomain)) ||
    (keyEmail && seen.has(keyEmail)) || (keyDomain && seen.has(keyDomain));
  const suppressedHit =
    (keyEmail && suppressedLookup.has(keyEmail)) || (keyDomain && suppressedLookup.has(keyDomain));
  \<close>
\<close>

definition duplicateKey ::
  "(string \<rightharpoonup> string) \<Rightarrow> string set \<Rightarrow> string option \<Rightarrow> string option \<Rightarrow> bool" where
  "duplicateKey existingLookup seen ke kd =
     (map_has existingLookup ke \<or> map_has existingLookup kd \<or> set_has seen ke \<or> set_has seen kd)"

definition suppressedHit :: "string set \<Rightarrow> string option \<Rightarrow> string option \<Rightarrow> bool" where
  "suppressedHit suppressedLookup ke kd = (set_has suppressedLookup ke \<or> set_has suppressedLookup kd)"

text \<open>
  \<^verbatim>\<open>
  const hasIdentifier =
    (companyName && String(companyName).trim() !== '') ||
    (contactName && String(contactName).trim() !== '') ||
    (email && String(email).trim() !== '');
  \<close>
\<close>

definition has_text :: "jsval \<Rightarrow> bool" where
  "has_text v = (js_truthy v \<and> js_trim (js_String v) \<noteq> [])"

definition hasIdentifier :: "jsval \<Rightarrow> bool" where
  "hasIdentifier raw =
     (has_text (js_field raw ''companyName'') \<or> has_text (js_field raw ''contactName'')
      \<or> has_text (js_field raw ''email''))"

text \<open>The object pushed on \<^verbatim>\<open>validProspects\<close>, with the columns the INSERT statement of the
  bulk path sets to NULL and to \<^verbatim>\<open>datetime('now')\<close>; \<open>sid\<close> is the route parameter.\<close>

definition bulk_row ::
  "(string \<Rightarrow> string option) \<Rightarrow> string \<Rightarrow> string \<Rightarrow> string \<Rightarrow> jsval \<Rightarrow> prospect" where
  "bulk_row hostname now sid new_id raw =
     \<lparr> row_id = new_id,
       sourceId = (if sid = [] then JNull else JStr sid),
       companyName = nullish_null (js_field raw ''companyName''),
       contactName = nullish_null (js_field raw ''contactName''),
       role = nullish_null (js_field raw ''role''),
       email = nullish_null (js_field raw ''email''),
       phone = nullish_null (js_field raw ''phone''),
       website = nullish_null (js_field raw ''website''),
       tags = (if is_array (js_field raw ''tags'') then JStr (js_String (js_field raw ''tags''))
               else if is_string (js_field raw ''tags'') then js_field raw ''tags''
               else JNull),
       status = (if is_string (js_field raw ''status'')
                    \<and> js_trim (str_of (js_field raw ''status'')) \<noteq> []
                 then JStr (js_trim (str_of (js_field raw ''status'')))
                 else JStr ''uncontacted''),
       ownerName = nullish_null (js_field raw ''ownerName''),
       archivedAt = None,
       normalizedEmail = normalizeEmail (js_field raw ''email''),
       normalizedDomain =
         extractDomainFromWebsiteOrEmail hostname (js_field raw ''website'') (js_field raw ''email''),
       normalizedContactName = normalizeName (js_field raw ''contactName''),
       origin = origin_or (js_field raw ''origin'') ''purchased'',
       suppressedAt = None,
       createdAt = now,
       updatedAt = None,
       lastContactedAt = None \<rparr>"

text \<open>The filter loop over the payload. \<open>gen n\<close> is the identifier that \<^verbatim>\<open>generateId('pros')\<close>
  returns for the row admitted after \<open>n\<close> others. A row that is not an object, has no
  identifier, or has \<^verbatim>\<open>duplicateKey || suppressedHit\<close> is passed over with \<^verbatim>\<open>continue\<close>.\<close>

fun bulk_loop ::
  "(string \<Rightarrow> string option) \<Rightarrow> (nat \<Rightarrow> string) \<Rightarrow> string \<Rightarrow> string
     \<Rightarrow> (string \<rightharpoonup> string) \<Rightarrow> string set
     \<Rightarrow> jsval list \<Rightarrow> string set \<Rightarrow> prospect list \<Rightarrow> prospect list" where
  "bulk_loop hostname gen now sid existingLookup suppressedLookup [] seen validProspects =
     validProspects"
| "bulk_loop hostname gen now sid existingLookup suppressedLookup (raw # rest) seen validProspects =
     (if js_truthy raw \<and> typeof_object raw \<and> hasIdentifier raw
      then (let row = bulk_row hostname now sid (gen (length validProspects)) raw;
                ke = keyEmail (normalizedEmail row);
                kd = keyDomain (normalizedDomain row) (normalizedContactName row)
            in if duplicateKey existingLookup seen ke kd \<or> suppressedHit suppressedLookup ke kd
               then bulk_loop hostname gen now sid existingLookup suppressedLookup rest seen
                      validProspects
               else bulk_loop hostname gen now sid existingLookup suppressedLookup rest
                      (add_key kd (add_key ke seen)) (validProspects @ [row]))
      else bulk_loop hostname gen now sid existingLookup suppressedLookup rest seen validProspects)"

definition bulk_filter ::
  "(string \<Rightarrow> string option) \<Rightarrow> (nat \<Rightarrow> string) \<Rightarrow> string \<Rightarrow> string
     \<Rightarrow> prospect list \<Rightarrow> jsval list \<Rightarrow> prospect list" where
  "bulk_filter hostname gen now sid rows raws =
     (case build_lookups rows of
        (existingLookup, suppressedLookup) \<Rightarrow>
          bulk_loop hostname gen now sid existingLookup suppressedLookup raws {} [])"

text \<open>The prepared INSERT runs once for each admitted row. \<^verbatim>\<open>stmt.run\<close> gets no completion
  callback, so the handler does not observe a failing run; what the driver does with that
  error is outside the model and is the fault value.\<close>

datatype fault = UnobservedInsertError

fun insert_all :: "database \<Rightarrow> prospect list \<Rightarrow> database option" where
  "insert_all db [] = Some db"
| "insert_all db (p # ps) =
     (case insert_prospect db p of None \<Rightarrow> None | Some db' \<Rightarrow> insert_all db' ps)"

text \<open>The handler: 400 for a payload without a non-empty \<^verbatim>\<open>prospects\<close> array, 400 when the
  filter admits no row, else the inserts and 201 with
  \<^verbatim>\<open>SELECT * FROM prospects WHERE id IN (...)\<close>. The order in which the engine lists the
  rows of that answer is not modelled; they stand in the order of the table.\<close>

definition POST_bulk ::
  "(string \<Rightarrow> string option) \<Rightarrow> (nat \<Rightarrow> string) \<Rightarrow> string \<Rightarrow> string \<Rightarrow> jsval \<Rightarrow> database
     \<Rightarrow> fault + (response \<times> database)" where
  "POST_bulk hostname gen now sid req_body db =
     (case js_field (if js_truthy req_body then req_body else JObj []) ''prospects'' of
        JArr raws \<Rightarrow>
          (if raws = [] then Inr (respond 400 (ErrorBody ''prospects array is required''), db)
           else (let validProspects = bulk_filter hostname gen now sid (prospects db) raws
                 in if validProspects = []
                    then Inr (respond 400 (ErrorBody ''No valid prospects to import''), db)
                    else (case insert_all db validProspects of
                            None \<Rightarrow> Inl UnobservedInsertError
                          | Some db' \<Rightarrow>
                              Inr (respond 201
                                     (RowsBody (filter (\<lambda>r. row_id r \<in> set (map row_id validProspects))
                                                  (prospects db'))),
                                   db'))))
      | _ \<Rightarrow> Inr (respond 400 (ErrorBody ''prospects array is required''), db))"


section \<open>Vocabulary of the properties\<close>

text \<open>The keys a stored row contributes to the snapshot, and the keys of a candidate row:
  its email key and its domain and name key, where it has them.\<close>

definition row_keys :: "prospect \<Rightarrow> string list" where
  "row_keys r =
     (case keyEmail (normalizedEmail r) of None \<Rightarrow> [] | Some k \<Rightarrow> [k])
     @ (case keyDomain (normalizedDomain r) (normalizedContactName r) of
          None \<Rightarrow> [] | Some k \<Rightarrow> [k])"

text \<open>A request field that is missing, null or the empty string.\<close>

definition absent_or_empty :: "jsval \<Rightarrow> bool" where
  "absent_or_empty v = (v = JUndefined \<or> v = JNull \<or> v = JStr [])"

text \<open>The rows of a list response.\<close>

fun rows_of :: "body \<Rightarrow> prospect list" where
  "rows_of (RowsBody rs) = rs"
| "rows_of b = []"

section \<open>Concrete tables and requests\<close>

definition blank_row :: "string \<Rightarrow> prospect" where
  "blank_row i =
     \<lparr> row_id = i, sourceId = JNull, companyName = JNull, contactName = JNull, role = JNull,
       email = JNull, phone = JNull, website = JNull, tags = JNull,
       status = JStr ''uncontacted'', ownerName = JNull, archivedAt = None,
       normalizedEmail = None, normalizedDomain = None, normalizedContactName = None,
       origin = ''manual'', suppressedAt = None, createdAt = ''2025-01-01 00:00:00'',
       updatedAt = None, lastContactedAt = None \<rparr>"

definition demo_gen :: "nat \<Rightarrow> string" where
  "demo_gen n = ''pros_new'' @ replicate n (CHR ''x'')"

text \<open>Jane Doe of acme.com is in the table; a second request names another mailbox of
  the same person.\<close>

definition jane_row :: prospect where
  "jane_row = (blank_row ''pros_1'')
     \<lparr> contactName := JStr ''Jane Doe'', email := JStr ''jane@acme.com'',
       normalizedEmail := Some ''jane@acme.com'', normalizedDomain := Some ''acme.com'',
       normalizedContactName := Some ''jane doe'' \<rparr>"

definition jane_db :: database where
  "jane_db = \<lparr> prospects = [jane_row], prospect_notes = [] \<rparr>"

definition other_jane :: jsval where
  "other_jane = JObj [(''email'', JStr ''j.doe@acme.com''), (''contactName'', JStr ''Jane Doe'')]"

text \<open>A row with the email \<^verbatim>\<open>a@b.com\<close>, not suppressed.\<close>

definition ab_row :: prospect where
  "ab_row = (blank_row ''pros_7'') \<lparr> email := JStr ''a@b.com'',
     normalizedEmail := Some ''a@b.com'', normalizedDomain := Some ''b.com'' \<rparr>"

definition ab_db :: database where
  "ab_db = \<lparr> prospects = [ab_row], prospect_notes = [] \<rparr>"

text \<open>A suppressed row of acme.com and Jane Doe, and an import row for the same person
  given by website and name only.\<close>

definition acme_suppressed :: prospect where
  "acme_suppressed = (blank_row ''pros_3'')
     \<lparr> normalizedDomain := Some ''acme.com'', normalizedContactName := Some ''jane doe'',
       suppressedAt := Some ''2025-02-02 10:00:00'' \<rparr>"

definition acme_import :: jsval where
  "acme_import =
     JObj [(''website'', JStr ''https://www.ACME.com''), (''contactName'', JStr ''Jane   Doe'')]"

text \<open>Two import rows with the same email, and a row without any identifier.\<close>

definition sam_import :: jsval where
  "sam_import = JObj [(''email'', JStr ''Sam@Corp.io''), (''companyName'', JStr ''Corp'')]"

definition unnamed_import :: jsval where
  "unnamed_import =
     JObj [(''companyName'', JStr []), (''contactName'', JStr []), (''email'', JStr [])]"

text \<open>A prospect that owns a note.\<close>

definition noted_db :: database where
  "noted_db =
     \<lparr> prospects = [blank_row ''pros_5''],
       prospect_notes =
         [\<lparr> note_id = ''note_1'', prospectId = ''pros_5'', note_type = None,
            note_text = ''called twice'', note_createdAt = ''2025-03-01 08:00:00'' \<rparr>] \<rparr>"

text \<open>One row for each combination of archived and suppressed.\<close>

definition mixed_db :: database where
  "mixed_db =
     \<lparr> prospects =
         [blank_row ''pros_a'',
          (blank_row ''pros_b'')\<lparr>archivedAt := Some ''2025-03-03 09:00:00''\<rparr>,
          (blank_row ''pros_c'')\<lparr>suppressedAt := Some ''2025-03-04 09:00:00''\<rparr>,
          (blank_row ''pros_d'')\<lparr>archivedAt := Some ''2025-03-03 09:00:00'',
                                 suppressedAt := Some ''2025-03-04 09:00:00''\<rparr>],
       prospect_notes = [] \<rparr>"

definition no_flags :: list_query where
  "no_flags = \<lparr> q_status = JUndefined, q_sourceId = JUndefined, q_ownerName = JUndefined,
                q_search = JUndefined, q_archived = JUndefined, q_suppressed = JUndefined \<rparr>"


text \<open>A text without white space at either end.\<close>

definition trimmed :: "string \<Rightarrow> bool" where
  "trimmed s = (s = [] \<or> (\<not> js_space (hd s) \<and> \<not> js_space (last s)))"

section \<open>Properties of the string primitives\<close>

lemma upper_lower: "\<not> js_upper (lower_char c)"
  using nat_of_char_less_256[of c] by (auto simp: lower_char_def js_upper_def Let_def)

lemma lower_lower: "lower_char (lower_char c) = lower_char c"
  using upper_lower[of c] by (simp add: lower_char_def[of "lower_char c"])

lemma lower_char_Char:
  "lower_char (Char b0 b1 b2 b3 b4 b5 b6 b7) =
     (if js_upper (Char b0 b1 b2 b3 b4 b5 b6 b7) then Char b0 b1 b2 b3 b4 True b6 b7
      else Char b0 b1 b2 b3 b4 b5 b6 b7)"
  by (cases b0; cases b1; cases b2; cases b3; cases b4; cases b5; cases b6; cases b7)
     (simp_all add: lower_char_def js_upper_def char_of_eq_iff)

lemma space_lower: "js_space (lower_char c) = js_space c"
  by (cases c) (auto simp: lower_char_Char js_upper_def js_space_def)

lemma not_space_blank [simp]: "js_space (CHR '' '')"
  by (simp add: js_space_def)

lemma lower_blank [simp]: "lower_char (CHR '' '') = CHR '' ''"
  by (simp add: lower_char_Char js_upper_def)

lemma dropWhile_hd: "dropWhile P xs \<noteq> [] \<Longrightarrow> \<not> P (hd (dropWhile P xs))"
  by (simp add: hd_dropWhile)

lemma dropWhile_id_hd: "xs \<noteq> [] \<Longrightarrow> \<not> P (hd xs) \<Longrightarrow> dropWhile P xs = xs"
  by (cases xs) auto

lemma trimmed_js_trim: "trimmed (js_trim s)"
proof (cases "js_trim s = []")
  case True
  then show ?thesis by (simp add: trimmed_def)
next
  case False
  let ?a = "dropWhile js_space s"
  let ?b = "dropWhile js_space (rev ?a)"
  from False have b: "?b \<noteq> []" by (simp add: js_trim_def)
  have a: "?a \<noteq> []"
  proof
    assume "?a = []"
    then have "?b = []" by (simp del: dropWhile_eq_Nil_conv)
    with b show False by simp
  qed
  have l: "\<not> js_space (hd ?b)" using b by (rule dropWhile_hd)
  have "\<not> js_space (hd ?a)" using a by (rule dropWhile_hd)
  then have "\<not> js_space (last (rev ?a))" using a by (simp add: last_rev)
  moreover have "last ?b = last (rev ?a)" using b
    by (metis dropWhile_eq_Nil_conv last_appendR takeWhile_dropWhile_id)
  ultimately have h: "\<not> js_space (last ?b)" by simp
  show ?thesis using b l h by (simp add: trimmed_def js_trim_def hd_rev last_rev)
qed

lemma js_trim_trimmed: "trimmed s \<Longrightarrow> js_trim s = s"
proof (cases s)
  case Nil
  then show ?thesis by (simp add: js_trim_def)
next
  case (Cons c cs)
  assume "trimmed s"
  with Cons have h: "\<not> js_space c" and l: "\<not> js_space (last s)"
    by (simp_all add: trimmed_def)
  from h Cons have a: "dropWhile js_space s = s" by simp
  have "hd (rev s) = last s" using Cons by (simp only: hd_rev list.simps)
  with l Cons have "dropWhile js_space (rev s) = rev s"
    by (intro dropWhile_id_hd) (simp_all del: rev.simps)
  with a show ?thesis by (simp add: js_trim_def)
qed

lemma trimmed_toLowerCase: "trimmed (toLowerCase s) = trimmed s"
  by (cases "s = []") (simp_all add: trimmed_def toLowerCase_def hd_map last_map space_lower)

lemma toLowerCase_idem: "toLowerCase (toLowerCase s) = toLowerCase s"
  by (simp add: toLowerCase_def lower_lower)

lemma normalizeEmail_fixed: "normalizeEmail x = Some t \<Longrightarrow> normalizeEmail (JStr t) = Some t"
  by (auto simp: normalizeEmail_def Let_def js_trim_trimmed trimmed_toLowerCase trimmed_js_trim
      toLowerCase_idem split: if_splits)

lemma collapse_ws_hd: "\<not> js_space (hd s) \<Longrightarrow> dropWhile js_space (collapse_ws s) = collapse_ws s"
  by (cases s) auto

lemma collapse_ws_idem: "collapse_ws (collapse_ws s) = collapse_ws s"
proof (induction s rule: collapse_ws.induct)
  case 1
  then show ?case by simp
next
  case (2 c cs)
  show ?case
  proof (cases "js_space c")
    case True
    define d where "d = dropWhile js_space cs"
    have "d = [] \<or> \<not> js_space (hd d)"
      unfolding d_def using dropWhile_hd[of js_space cs] by blast
    then have "dropWhile js_space (collapse_ws d) = collapse_ws d"
      by (cases d) auto
    with True 2 show ?thesis by (simp add: d_def)
  next
    case False
    with 2 show ?thesis by simp
  qed
qed

lemma collapse_ws_Nil: "(collapse_ws s = []) = (s = [])"
  by (cases s) auto

lemma collapse_ws_last: "s \<noteq> [] \<Longrightarrow> \<not> js_space (last s) \<Longrightarrow> last (collapse_ws s) = last s"
proof (induction s rule: collapse_ws.induct)
  case 1
  then show ?case by simp
next
  case (2 c cs)
  show ?case
  proof (cases "js_space c")
    case True
    let ?d = "dropWhile js_space cs"
    from True "2.prems" have cs: "cs \<noteq> []" by auto
    with "2.prems" have lcs: "\<not> js_space (last cs)" by simp
    then have d: "?d \<noteq> []" using cs by (metis dropWhile_eq_Nil_conv last_in_set)
    then have "last ?d = last cs"
      by (metis last_appendR takeWhile_dropWhile_id)
    with True "2.IH"(1) d lcs cs show ?thesis
      by (simp add: collapse_ws_Nil del: dropWhile_eq_Nil_conv)
  next
    case False
    with 2 show ?thesis by (cases "cs = []") (simp_all add: collapse_ws_Nil)
  qed
qed

lemma trimmed_collapse_ws: "trimmed s \<Longrightarrow> trimmed (collapse_ws s)"
proof (cases s)
  case Nil
  then show ?thesis by (simp add: trimmed_def)
next
  case (Cons c cs)
  assume t: "trimmed s"
  with Cons have h: "\<not> js_space c" and l: "\<not> js_space (last s)" by (simp_all add: trimmed_def)
  have "last (collapse_ws s) = last s" using Cons l by (intro collapse_ws_last) simp_all
  with h l Cons show ?thesis by (simp add: trimmed_def)
qed

lemma collapse_ws_lower: "toLowerCase (collapse_ws (toLowerCase s)) = collapse_ws (toLowerCase s)"
proof (induction s rule: collapse_ws.induct)
  case 1
  then show ?case by (simp add: toLowerCase_def)
next
  case (2 c cs)
  have dw: "dropWhile js_space (map lower_char cs) = map lower_char (dropWhile js_space cs)"
    by (induction cs) (simp_all add: space_lower)
  from 2 dw show ?case
    by (simp add: toLowerCase_def space_lower lower_lower)
qed

lemma normalizeName_fixed: "normalizeName x = Some t \<Longrightarrow> normalizeName (JStr t) = Some t"
  by (auto simp: normalizeName_def Let_def js_trim_trimmed trimmed_toLowerCase trimmed_js_trim
      trimmed_collapse_ws collapse_ws_lower collapse_ws_idem split: if_splits)


lemmas string_eval = js_trim_def js_space_def toLowerCase_def lower_char_Char js_upper_def
  startsWith_http_def includes_at_def split_at_1_def

lemmas normalize_eval = normalizeEmail_def normalizeName_def extractDomainFromWebsiteOrEmail_def
  domain_from_website_def domain_from_email_def

section \<open>The normalizers are idempotent\<close>

text \<open>For code units below 256 the normalizers are idempotent on every JavaScript value and
  return null for every value that is not a non-empty string.\<close>

lemma normalize_latin1_idempotent:
  "normalizeEmail (js_of (normalizeEmail x)) = normalizeEmail x
   \<and> normalizeName (js_of (normalizeName x)) = normalizeName x
   \<and> normalizeEmail JUndefined = None \<and> normalizeName JUndefined = None
   \<and> normalizeEmail JNull = None \<and> normalizeName JNull = None
   \<and> normalizeEmail (JBool b) = None \<and> normalizeName (JBool b) = None
   \<and> normalizeEmail (JNum n) = None \<and> normalizeName (JNum n) = None
   \<and> normalizeEmail (JArr xs) = None \<and> normalizeName (JArr xs) = None
   \<and> normalizeEmail (JObj kvs) = None \<and> normalizeName (JObj kvs) = None
   \<and> normalizeEmail (JStr []) = None \<and> normalizeName (JStr []) = None"
proof -
  have e: "normalizeEmail (js_of (normalizeEmail x)) = normalizeEmail x"
  proof (cases "normalizeEmail x")
    case None
    then show ?thesis by (simp add: normalizeEmail_def)
  next
    case (Some t)
    then show ?thesis by (simp add: normalizeEmail_fixed)
  qed
  have n: "normalizeName (js_of (normalizeName x)) = normalizeName x"
  proof (cases "normalizeName x")
    case None
    then show ?thesis by (simp add: normalizeName_def)
  next
    case (Some t)
    then show ?thesis by (simp add: normalizeName_fixed)
  qed
  from e n show ?thesis by (simp add: normalizeEmail_def normalizeName_def)
qed


section \<open>The normalizers are idempotent over any alphabet\<close>

lemma trimmed_by_trim: "trimmed_by space (trim_by space s)"
proof (cases "trim_by space s = []")
  case True
  then show ?thesis by (simp add: trimmed_by_def)
next
  case False
  let ?a = "dropWhile space s"
  let ?b = "dropWhile space (rev ?a)"
  from False have b: "?b \<noteq> []" by (simp add: trim_by_def)
  have a: "?a \<noteq> []"
  proof
    assume "?a = []"
    then have "?b = []" by (simp del: dropWhile_eq_Nil_conv)
    with b show False by simp
  qed
  have l: "\<not> space (hd ?b)" using b by (rule dropWhile_hd)
  have "\<not> space (hd ?a)" using a by (rule dropWhile_hd)
  then have "\<not> space (last (rev ?a))" using a by (simp add: last_rev)
  moreover have "last ?b = last (rev ?a)" using b
    by (metis dropWhile_eq_Nil_conv last_appendR takeWhile_dropWhile_id)
  ultimately have h: "\<not> space (last ?b)" by simp
  show ?thesis using b l h by (simp add: trimmed_by_def trim_by_def hd_rev last_rev)
qed

lemma trim_by_trimmed: "trimmed_by space s \<Longrightarrow> trim_by space s = s"
proof (cases s)
  case Nil
  then show ?thesis by (simp add: trim_by_def)
next
  case (Cons c cs)
  assume "trimmed_by space s"
  with Cons have h: "\<not> space c" and l: "\<not> space (last s)"
    by (simp_all add: trimmed_by_def)
  from h Cons have a: "dropWhile space s = s" by simp
  have "hd (rev s) = last s" using Cons by (simp only: hd_rev list.simps)
  with l Cons have "dropWhile space (rev s) = rev s"
    by (intro dropWhile_id_hd) (simp_all del: rev.simps)
  with a show ?thesis by (simp add: trim_by_def)
qed

lemma collapse_by_hd:
  "\<not> space (hd s) \<Longrightarrow> dropWhile space (collapse_by space blank s) = collapse_by space blank s"
  by (cases s) auto

lemma collapse_by_idem:
  "space blank \<Longrightarrow> collapse_by space blank (collapse_by space blank s) = collapse_by space blank s"
proof (induction space blank s rule: collapse_by.induct)
  case (1 space blank)
  then show ?case by simp
next
  case (2 space blank c cs)
  show ?case
  proof (cases "space c")
    case True
    define d where "d = dropWhile space cs"
    have "d = [] \<or> \<not> space (hd d)"
      unfolding d_def using dropWhile_hd[of space cs] by blast
    then have "dropWhile space (collapse_by space blank d) = collapse_by space blank d"
      by (cases d) auto
    with True 2 show ?thesis by (simp add: d_def)
  next
    case False
    with 2 show ?thesis by simp
  qed
qed

lemma collapse_by_Nil: "(collapse_by space blank s = []) = (s = [])"
  by (cases s) auto

lemma collapse_by_last:
  "s \<noteq> [] \<Longrightarrow> \<not> space (last s) \<Longrightarrow> last (collapse_by space blank s) = last s"
proof (induction space blank s rule: collapse_by.induct)
  case (1 space blank)
  then show ?case by simp
next
  case (2 space blank c cs)
  show ?case
  proof (cases "space c")
    case True
    let ?d = "dropWhile space cs"
    from True "2.prems" have cs: "cs \<noteq> []" by auto
    with "2.prems" have lcs: "\<not> space (last cs)" by simp
    then have d: "?d \<noteq> []" using cs by (metis dropWhile_eq_Nil_conv last_in_set)
    then have "last ?d = last cs"
      by (metis last_appendR takeWhile_dropWhile_id)
    with True "2.IH"(1) d lcs cs show ?thesis
      by (simp add: collapse_by_Nil del: dropWhile_eq_Nil_conv)
  next
    case False
    with 2 show ?thesis by (cases "cs = []") (simp_all add: collapse_by_Nil)
  qed
qed

lemma trimmed_by_collapse:
  "trimmed_by space s \<Longrightarrow> trimmed_by space (collapse_by space blank s)"
proof (cases s)
  case Nil
  then show ?thesis by (simp add: trimmed_by_def)
next
  case (Cons c cs)
  assume t: "trimmed_by space s"
  with Cons have h: "\<not> space c" and l: "\<not> space (last s)" by (simp_all add: trimmed_by_def)
  have "last (collapse_by space blank s) = last s" using Cons l by (intro collapse_by_last) simp_all
  with h l Cons show ?thesis by (simp add: trimmed_by_def)
qed

lemma normalizeEmail_by_fixed:
  assumes p: "platform_text lower space blank"
    and r: "normalizeEmail_by lower space x = Some t"
  shows "normalizeEmail_by lower space (Str t) = Some t"
proof -
  from r obtain s where t: "t = lower (trim_by space s)" and n: "t \<noteq> []"
    by (auto simp: normalizeEmail_by_def Let_def split: js_input.splits if_splits)
  from p have "trimmed_by space (lower (trim_by space s))"
    using trimmed_by_trim[of space s] by (simp add: platform_text_def)
  then have 1: "trim_by space t = t" unfolding t by (rule trim_by_trimmed)
  from p have 2: "lower t = t" unfolding t by (simp add: platform_text_def)
  from n 1 2 show ?thesis by (simp add: normalizeEmail_by_def)
qed

lemma normalizeName_by_fixed:
  assumes p: "platform_text lower space blank"
    and r: "normalizeName_by lower space blank x = Some t"
  shows "normalizeName_by lower space blank (Str t) = Some t"
proof -
  from r obtain s where t: "t = collapse_by space blank (lower (trim_by space s))" and n: "t \<noteq> []"
    by (auto simp: normalizeName_by_def Let_def split: js_input.splits if_splits)
  let ?u = "lower (trim_by space s)"
  from p have b: "space blank" by (simp add: platform_text_def)
  from p have u: "trimmed_by space ?u"
    using trimmed_by_trim[of space s] by (simp add: platform_text_def)
  then have "trimmed_by space t" unfolding t by (rule trimmed_by_collapse)
  then have 1: "trim_by space t = t" by (rule trim_by_trimmed)
  from p have "lower ?u = ?u" by (simp add: platform_text_def)
  with p have 2: "lower t = t" unfolding t by (simp add: platform_text_def)
  from b have 3: "collapse_by space blank t = t" unfolding t by (rule collapse_by_idem)
  from n 1 2 3 show ?thesis by (simp add: normalizeName_by_def)
qed

text \<open>
  C7. Applying \<open>normalizeEmail\<close> to its own result changes nothing, and neither does
  \<open>normalizeName\<close>, for every argument: a value that is not a string, the empty string,
  or a string over any alphabet of code units. Both functions are total, and they return
  null for every value that is not a string and for the empty string. The platform's
  lower-casing and white space enter through the four properties of \<open>platform_text\<close>.
\<close>

theorem normalize_idempotent:
  assumes "platform_text lower space blank"
  shows "normalizeEmail_by lower space (input_of_result (normalizeEmail_by lower space x))
           = normalizeEmail_by lower space x
   \<and> normalizeName_by lower space blank (input_of_result (normalizeName_by lower space blank x))
           = normalizeName_by lower space blank x
   \<and> normalizeEmail_by lower space NotAString = None
   \<and> normalizeName_by lower space blank NotAString = None
   \<and> normalizeEmail_by lower space (Str []) = None
   \<and> normalizeName_by lower space blank (Str []) = None"
proof -
  have e: "normalizeEmail_by lower space (input_of_result (normalizeEmail_by lower space x))
           = normalizeEmail_by lower space x"
  proof (cases "normalizeEmail_by lower space x")
    case None
    then show ?thesis by (simp add: normalizeEmail_by_def)
  next
    case (Some t)
    with assms show ?thesis by (simp add: normalizeEmail_by_fixed)
  qed
  have n: "normalizeName_by lower space blank (input_of_result (normalizeName_by lower space blank x))
           = normalizeName_by lower space blank x"
  proof (cases "normalizeName_by lower space blank x")
    case None
    then show ?thesis by (simp add: normalizeName_by_def)
  next
    case (Some t)
    with assms show ?thesis by (simp add: normalizeName_by_fixed)
  qed
  from e n show ?thesis by (simp add: normalizeEmail_by_def normalizeName_by_def)
qed

text \<open>The tables for code units below 256 have the four properties, and the normalizers
  of the handlers are that instance.\<close>

lemma js_trim_by: "js_trim s = trim_by js_space s"
  by (simp add: js_trim_def trim_by_def)

lemma collapse_ws_by: "collapse_ws s = collapse_by js_space (CHR '' '') s"
  by (induction s rule: collapse_ws.induct) simp_all

lemma trimmed_by_js: "trimmed_by js_space s = trimmed s"
  by (simp add: trimmed_by_def trimmed_def)

lemma normalizeEmail_instance:
  "normalizeEmail v = normalizeEmail_by toLowerCase js_space (input_of v)"
  by (cases v) (simp_all add: normalizeEmail_def normalizeEmail_by_def js_trim_by)

lemma normalizeName_instance:
  "normalizeName v = normalizeName_by toLowerCase js_space (CHR '' '') (input_of v)"
  by (cases v) (simp_all add: normalizeName_def normalizeName_by_def js_trim_by collapse_ws_by)

lemma latin1_platform: "platform_text toLowerCase js_space (CHR '' '')"
proof -
  have "toLowerCase (collapse_ws y) = collapse_ws y" if "toLowerCase y = y" for y
    using collapse_ws_lower[of y] that by simp
  then show ?thesis
    by (simp add: platform_text_def toLowerCase_idem trimmed_by_js trimmed_toLowerCase
        collapse_ws_by[symmetric])
qed

theorem normalize_idempotent_witness:
  "normalizeEmail_by toLowerCase js_space (Str ''A@B.com '') = Some ''a@b.com''
   \<and> normalizeEmail_by toLowerCase js_space (Str ''a@b.com'') = Some ''a@b.com''
   \<and> normalizeName_by toLowerCase js_space (CHR '' '') (Str ''Jane   Doe'') = Some ''jane doe''
   \<and> normalizeName_by toLowerCase js_space (CHR '' '') (Str ''jane doe'') = Some ''jane doe''"
proof -
  have e: "normalizeEmail_by toLowerCase js_space (Str ''A@B.com '') = Some ''a@b.com''"
    by (simp add: normalizeEmail_by_def trim_by_def string_eval)
  have n: "normalizeName_by toLowerCase js_space (CHR '' '') (Str ''Jane   Doe'') = Some ''jane doe''"
    by (simp add: normalizeName_by_def trim_by_def string_eval)
  from normalize_idempotent [OF latin1_platform, of "Str ''A@B.com ''"]
    normalize_idempotent [OF latin1_platform, of "Str ''Jane   Doe''"] e n
  show ?thesis by simp
qed


section \<open>Single create\<close>

lemma js_field_body: "js_field (if js_truthy b then b else JObj []) k = js_field b k"
  by (cases b) auto

lemma find_hit: "x \<in> set xs \<Longrightarrow> P x \<Longrightarrow> \<exists>y\<in>set xs. find P xs = Some y \<and> P y"
  by (induction xs) auto

lemma single_row_keys:
  "normalizedEmail (single_row h i t b) = normalizeEmail (js_field b ''email'')"
  "normalizedDomain (single_row h i t b) =
     extractDomainFromWebsiteOrEmail h (js_field b ''website'') (js_field b ''email'')"
  "normalizedContactName (single_row h i t b) = normalizeName (js_field b ''contactName'')"
  "row_id (single_row h i t b) = i"
  by (simp_all add: single_row_def)

lemma single_row_body:
  "single_row h i t (if js_truthy b then b else JObj []) = single_row h i t b"
  by (simp add: single_row_def js_field_body)

lemma find_snoc_fresh:
  "i \<notin> row_id ` set xs \<Longrightarrow> row_id x = i \<Longrightarrow> find (\<lambda>r. row_id r = i) (xs @ [x]) = Some x"
  by (induction xs) auto

lemma POST_prospects_alt:
  "POST_prospects h i t b db =
     (case checkDuplicateProspect db (normalizeEmail (js_field b ''email''))
             (extractDomainFromWebsiteOrEmail h (js_field b ''website'') (js_field b ''email''))
             (normalizeName (js_field b ''contactName'')) of
        Some existing \<Rightarrow> (respond 409 (DuplicateBody (row_id existing)), db)
      | None \<Rightarrow>
          (case insert_prospect db (single_row h i t b) of
             None \<Rightarrow> (respond 500 (ErrorBody ''Failed to create prospect''), db)
           | Some db' \<Rightarrow> (respond 201 (RowBody (getProspectById db' i)), db')))"
  unfolding POST_prospects_def Let_def single_row_body single_row_keys js_field_body ..

lemma POST_prospects_found:
  "checkDuplicateProspect db (normalizeEmail (js_field b ''email''))
     (extractDomainFromWebsiteOrEmail h (js_field b ''website'') (js_field b ''email''))
     (normalizeName (js_field b ''contactName'')) = Some r
   \<Longrightarrow> POST_prospects h i t b db = (respond 409 (DuplicateBody (row_id r)), db)"
  by (simp add: POST_prospects_alt)

lemma POST_prospects_clear:
  "checkDuplicateProspect db (normalizeEmail (js_field b ''email''))
     (extractDomainFromWebsiteOrEmail h (js_field b ''website'') (js_field b ''email''))
     (normalizeName (js_field b ''contactName'')) = None
   \<Longrightarrow> i \<notin> set (map row_id (prospects db))
   \<Longrightarrow> POST_prospects h i t b db =
       (respond 201 (RowBody (Some (single_row h i t b))),
        db\<lparr>prospects := prospects db @ [single_row h i t b]\<rparr>)"
  by (simp add: POST_prospects_alt insert_prospect_def getProspectById_def find_snoc_fresh
      single_row_keys)


text \<open>
  C2. A single-create request whose identity keys match a stored row is answered with 409
  and the id of a stored row that matches, and the table is left as it was. The match is
  by the email key when the request has one, and by the domain and name pair when it has
  no email key; whether the stored row is suppressed plays no part. In particular, with a
  stored row whose normalized email is \<^verbatim>\<open>a@b.com\<close>, a request with the email
  \<^verbatim>\<open>A@B.com \<close> (capitals, trailing blank) and any further fields is answered with 409.
\<close>

theorem single_create_conflict:
  "(let ne = normalizeEmail (js_field b ''email'');
        nd = extractDomainFromWebsiteOrEmail h (js_field b ''website'') (js_field b ''email'');
        nn = normalizeName (js_field b ''contactName'')
    in ((truthy_opt ne \<and> (\<exists>r\<in>set (prospects db). normalizedEmail r = ne))
        \<or> (\<not> truthy_opt ne \<and> truthy_opt nd \<and> truthy_opt nn
            \<and> (\<exists>r\<in>set (prospects db). normalizedDomain r = nd \<and> normalizedContactName r = nn)))
       \<longrightarrow> (\<exists>r\<in>set (prospects db).
              POST_prospects h i t b db = (respond 409 (DuplicateBody (row_id r)), db)
              \<and> ((truthy_opt ne \<and> normalizedEmail r = ne)
                 \<or> (\<not> truthy_opt ne \<and> normalizedDomain r = nd \<and> normalizedContactName r = nn))))
   \<and> ((\<exists>r\<in>set (prospects db). normalizedEmail r = Some ''a@b.com'')
       \<longrightarrow> (\<exists>r\<in>set (prospects db). normalizedEmail r = Some ''a@b.com''
              \<and> POST_prospects h i t (JObj ((''email'', JStr ''A@B.com '') # kvs)) db
                  = (respond 409 (DuplicateBody (row_id r)), db)))"
proof -
  have main: "\<exists>r\<in>set (prospects db).
      POST_prospects h i t b db = (respond 409 (DuplicateBody (row_id r)), db)
      \<and> ((truthy_opt ne \<and> normalizedEmail r = ne)
         \<or> (\<not> truthy_opt ne \<and> normalizedDomain r = nd \<and> normalizedContactName r = nn))"
    if ne: "ne = normalizeEmail (js_field b ''email'')"
    and nd: "nd = extractDomainFromWebsiteOrEmail h (js_field b ''website'') (js_field b ''email'')"
    and nn: "nn = normalizeName (js_field b ''contactName'')"
    and m: "(truthy_opt ne \<and> (\<exists>r\<in>set (prospects db). normalizedEmail r = ne))
        \<or> (\<not> truthy_opt ne \<and> truthy_opt nd \<and> truthy_opt nn
            \<and> (\<exists>r\<in>set (prospects db). normalizedDomain r = nd \<and> normalizedContactName r = nn))"
    for ne nd nn b
  proof (cases "truthy_opt ne")
    case True
    with m obtain r0 where r0: "r0 \<in> set (prospects db)" "normalizedEmail r0 = ne" by auto
    from True obtain e where e: "ne = Some e" by (cases ne) auto
    from r0 e obtain r where r: "r \<in> set (prospects db)"
      "find (\<lambda>r. normalizedEmail r = Some e) (prospects db) = Some r" "normalizedEmail r = Some e"
      using find_hit[of r0 "prospects db" "\<lambda>r. normalizedEmail r = Some e"] by auto
    from True e r have "checkDuplicateProspect db ne nd nn = Some r"
      by (simp add: checkDuplicateProspect_def select_by_email_def)
    then have "POST_prospects h i t b db = (respond 409 (DuplicateBody (row_id r)), db)"
      unfolding ne nd nn by (rule POST_prospects_found)
    with r True e show ?thesis by auto
  next
    case False
    with m obtain r0 where r0: "r0 \<in> set (prospects db)" "normalizedDomain r0 = nd"
      "normalizedContactName r0 = nn" and t: "truthy_opt nd" "truthy_opt nn" by auto
    from t obtain d n where dn: "nd = Some d" "nn = Some n" by (cases nd; cases nn) auto
    from r0 dn obtain r where r: "r \<in> set (prospects db)"
      "find (\<lambda>r. normalizedDomain r = Some d \<and> normalizedContactName r = Some n) (prospects db) = Some r"
      "normalizedDomain r = Some d" "normalizedContactName r = Some n"
      using find_hit[of r0 "prospects db" "\<lambda>r. normalizedDomain r = Some d \<and> normalizedContactName r = Some n"]
      by auto
    from False t dn r have "checkDuplicateProspect db ne nd nn = Some r"
      by (simp add: checkDuplicateProspect_def select_by_domain_name_def)
    then have "POST_prospects h i t b db = (respond 409 (DuplicateBody (row_id r)), db)"
      unfolding ne nd nn by (rule POST_prospects_found)
    with r False dn show ?thesis by auto
  qed
  have ab: "normalizeEmail (js_field (JObj ((''email'', JStr ''A@B.com '') # kvs)) ''email'') = Some ''a@b.com''"
    by (simp add: normalizeEmail_def string_eval)
  have part: "\<exists>r\<in>set (prospects db). normalizedEmail r = Some ''a@b.com''
              \<and> POST_prospects h i t (JObj ((''email'', JStr ''A@B.com '') # kvs)) db
                  = (respond 409 (DuplicateBody (row_id r)), db)"
    if "\<exists>r\<in>set (prospects db). normalizedEmail r = Some ''a@b.com''"
    using main[OF ab[symmetric] refl refl] that unfolding ab by auto
  from main part show ?thesis unfolding Let_def by blast
qed


theorem single_create_conflict_witness:
  "normalizedEmail ab_row = Some ''a@b.com'' \<and> suppressedAt ab_row = None
   \<and> POST_prospects plain_hostname ''pros_8'' ''2025-06-01 12:00:00''
         (JObj [(''email'', JStr ''A@B.com ''), (''companyName'', JStr ''B Ltd'')]) ab_db
       = (respond 409 (DuplicateBody ''pros_7''), ab_db)"
  using single_create_conflict [where db = ab_db and h = plain_hostname
      and i = "''pros_8''" and t = "''2025-06-01 12:00:00''"
      and kvs = "[(''companyName'', JStr ''B Ltd'')]", THEN conjunct2]
  by (simp add: ab_db_def ab_row_def blank_row_def)

lemma absent_normalized:
  assumes "absent_or_empty v"
  shows "normalizeEmail v = None" "normalizeName v = None"
    "domain_from_website h v = None" "domain_from_email v = None"
  using assms
  by (auto simp: absent_or_empty_def normalizeEmail_def normalizeName_def
      domain_from_website_def domain_from_email_def)

lemma checkDuplicateProspect_no_keys: "checkDuplicateProspect db None None None = None"
  by (simp add: checkDuplicateProspect_def)

text \<open>
  C10. The single-create path accepts a request without any identity material. When the
  fields email, contactName, companyName and website are each missing, null or empty, no
  key can be formed, the duplicate check finds nothing, and the row is inserted with all
  three normalized columns null and answered with 201; the identifier generated for it
  is assumed to be unused. Sending the same request again inserts one more row in the
  same way: the path has no rejection of such input.
\<close>

theorem create_without_identity:
  assumes "absent_or_empty (js_field b ''email'')"
    and "absent_or_empty (js_field b ''contactName'')"
    and "absent_or_empty (js_field b ''companyName'')"
    and "absent_or_empty (js_field b ''website'')"
    and "i \<notin> set (map row_id (prospects db))"
    and "j \<notin> set (map row_id (prospects db))"
    and "i \<noteq> j"
  shows "POST_prospects h i t b db =
           (respond 201 (RowBody (Some (single_row h i t b))),
            db\<lparr>prospects := prospects db @ [single_row h i t b]\<rparr>)
         \<and> normalizedEmail (single_row h i t b) = None
         \<and> normalizedDomain (single_row h i t b) = None
         \<and> normalizedContactName (single_row h i t b) = None
         \<and> POST_prospects h j u b (snd (POST_prospects h i t b db)) =
           (respond 201 (RowBody (Some (single_row h j u b))),
            db\<lparr>prospects := prospects db @ [single_row h i t b, single_row h j u b]\<rparr>)"
proof -
  have keys: "normalizeEmail (js_field b ''email'') = None"
    "extractDomainFromWebsiteOrEmail h (js_field b ''website'') (js_field b ''email'') = None"
    "normalizeName (js_field b ''contactName'') = None"
    using assms(1,2,4) by (simp_all add: absent_normalized extractDomainFromWebsiteOrEmail_def)
  have clear: "checkDuplicateProspect d (normalizeEmail (js_field b ''email''))
     (extractDomainFromWebsiteOrEmail h (js_field b ''website'') (js_field b ''email''))
     (normalizeName (js_field b ''contactName'')) = None" for d
    by (simp add: keys checkDuplicateProspect_no_keys)
  have first: "POST_prospects h i t b db =
           (respond 201 (RowBody (Some (single_row h i t b))),
            db\<lparr>prospects := prospects db @ [single_row h i t b]\<rparr>)"
    using clear assms(5) by (rule POST_prospects_clear)
  let ?db1 = "db\<lparr>prospects := prospects db @ [single_row h i t b]\<rparr>"
  have "j \<notin> set (map row_id (prospects ?db1))"
    using assms(6,7) by (simp add: single_row_keys)
  with clear have "POST_prospects h j u b ?db1 =
           (respond 201 (RowBody (Some (single_row h j u b))),
            ?db1\<lparr>prospects := prospects ?db1 @ [single_row h j u b]\<rparr>)"
    by (rule POST_prospects_clear)
  with first show ?thesis by (simp add: single_row_keys keys)
qed

theorem create_without_identity_witness:
  "POST_prospects plain_hostname ''pros_2'' ''2025-06-01 12:00:00'' (JObj [(''email'', JStr [])])
       jane_db
     = (respond 201 (RowBody (Some (single_row plain_hostname ''pros_2'' ''2025-06-01 12:00:00''
                                      (JObj [(''email'', JStr [])])))),
        jane_db\<lparr>prospects := prospects jane_db
           @ [single_row plain_hostname ''pros_2'' ''2025-06-01 12:00:00''
               (JObj [(''email'', JStr [])])]\<rparr>)
   \<and> POST_prospects plain_hostname ''pros_3'' ''2025-06-01 12:00:01'' (JObj [(''email'', JStr [])])
         (snd (POST_prospects plain_hostname ''pros_2'' ''2025-06-01 12:00:00''
                (JObj [(''email'', JStr [])]) jane_db))
     = (respond 201 (RowBody (Some (single_row plain_hostname ''pros_3'' ''2025-06-01 12:00:01''
                                      (JObj [(''email'', JStr [])])))),
        jane_db\<lparr>prospects := prospects jane_db
           @ [single_row plain_hostname ''pros_2'' ''2025-06-01 12:00:00''
               (JObj [(''email'', JStr [])]),
              single_row plain_hostname ''pros_3'' ''2025-06-01 12:00:01''
               (JObj [(''email'', JStr [])])]\<rparr>)"
proof -
  let ?b = "JObj [(''email'', JStr [])]"
  have a: "absent_or_empty (js_field ?b ''email'')" "absent_or_empty (js_field ?b ''contactName'')"
    "absent_or_empty (js_field ?b ''companyName'')" "absent_or_empty (js_field ?b ''website'')"
    by (simp_all add: absent_or_empty_def)
  have f: "''pros_2'' \<notin> set (map row_id (prospects jane_db))"
    "''pros_3'' \<notin> set (map row_id (prospects jane_db))"
    by (simp_all add: jane_db_def jane_row_def blank_row_def)
  have d: "''pros_2'' \<noteq> ''pros_3''" by simp
  from create_without_identity [OF a f d, of plain_hostname "''2025-06-01 12:00:00''"
      "''2025-06-01 12:00:01''"]
  show ?thesis by blast
qed

section \<open>Listing\<close>

text \<open>
  C9. Every row that \<^verbatim>\<open>GET /prospects\<close> returns is a row of the table that is archived
  exactly if the query has \<^verbatim>\<open>archived=1\<close> and suppressed exactly if it has
  \<^verbatim>\<open>suppressed=1\<close>, each flag deciding its own column whatever the other is. Without
  any query parameter the answer holds exactly the rows that are neither archived nor
  suppressed, and with \<^verbatim>\<open>archived=1\<close> alone exactly the archived rows that are not
  suppressed.
\<close>

theorem list_respects_flags:
  "status_code (GET_prospects like q db) = 200
   \<and> (\<forall>r\<in>set (rows_of (body (GET_prospects like q db))).
         r \<in> set (prospects db)
         \<and> (archivedAt r \<noteq> None) = (q_archived q = JStr ''1'')
         \<and> (suppressedAt r \<noteq> None) = (q_suppressed q = JStr ''1''))
   \<and> set (rows_of (body (GET_prospects like no_flags db)))
       = {r \<in> set (prospects db). archivedAt r = None \<and> suppressedAt r = None}
   \<and> set (rows_of (body (GET_prospects like (no_flags\<lparr>q_archived := JStr ''1''\<rparr>) db)))
       = {r \<in> set (prospects db). archivedAt r \<noteq> None \<and> suppressedAt r = None}"
proof -
  have rows: "set (rows_of (body (GET_prospects like q db)))
      = {r \<in> set (prospects db). where_clause like q r}" for q
    by (simp add: GET_prospects_def respond_def)
  have flags: "(archivedAt r \<noteq> None) = (q_archived q = JStr ''1'')
         \<and> (suppressedAt r \<noteq> None) = (q_suppressed q = JStr ''1'')" if "where_clause like q r" for r
    using that by (auto simp: where_clause_def split: if_splits)
  have plain: "where_clause like no_flags r = (archivedAt r = None \<and> suppressedAt r = None)" for r
    by (simp add: where_clause_def no_flags_def text_filter_def)
  have arch: "where_clause like (no_flags\<lparr>q_archived := JStr ''1''\<rparr>) r
      = (archivedAt r \<noteq> None \<and> suppressedAt r = None)" for r
    by (simp add: where_clause_def no_flags_def text_filter_def)
  show ?thesis
    unfolding rows plain arch using flags by (auto simp: GET_prospects_def respond_def)
qed

theorem list_respects_flags_witness:
  "map row_id (rows_of (body (GET_prospects (\<lambda>p v. False) no_flags mixed_db))) = [''pros_a'']
   \<and> map row_id (rows_of (body (GET_prospects (\<lambda>p v. False) (no_flags\<lparr>q_archived := JStr ''1''\<rparr>) mixed_db)))
       = [''pros_b'']"
  using list_respects_flags [where db = mixed_db and like = "\<lambda>p v. False" and q = no_flags]
  by (simp add: GET_prospects_def respond_def where_clause_def no_flags_def text_filter_def
      mixed_db_def blank_row_def)


section \<open>Delete\<close>

lemma find_Some_filter: "find P xs = Some x \<Longrightarrow> filter P xs \<noteq> []"
  by (induction xs) (auto split: if_splits)

lemma DELETE_not_archived:
  "getProspectById db i = Some p \<Longrightarrow> \<not> truthy_opt (archivedAt p)
   \<Longrightarrow> DELETE_prospect i db
       = (respond 400 (ErrorBody ''Prospect must be archived before deletion''), db)"
  by (simp add: DELETE_prospect_def)

lemma DELETE_archived:
  "getProspectById db i = Some p \<Longrightarrow> truthy_opt (archivedAt p)
   \<Longrightarrow> DELETE_prospect i db
       = (respond 200 (DeletedBody i), db\<lparr>prospects := filter (\<lambda>r. row_id r \<noteq> i) (prospects db)\<rparr>)"
  by (simp add: DELETE_prospect_def delete_prospect_def getProspectById_def find_Some_filter)

lemma DELETE_keeps_notes: "prospect_notes (snd (DELETE_prospect i db)) = prospect_notes db"
  by (simp add: DELETE_prospect_def delete_prospect_def split: option.splits)

text \<open>
  C8. Delete is refused with 400 for a prospect that is not archived, and the tables stay
  as they are. After archiving, delete answers 200 and removes the prospect row. The
  notes of the prospect are not removed with it: the note of the deleted prospect is
  still in \<^verbatim>\<open>prospect_notes\<close> afterwards, although the schema declares the cascade.
\<close>

theorem delete_leaves_notes:
  "fst (DELETE_prospect ''pros_5'' noted_db)
     = respond 400 (ErrorBody ''Prospect must be archived before deletion'')
   \<and> status_code (fst (PATCH_archive ''2025-03-03 09:00:00'' ''pros_5'' noted_db)) = 200
   \<and> DELETE_prospect ''pros_5'' (snd (PATCH_archive ''2025-03-03 09:00:00'' ''pros_5'' noted_db))
       = (respond 200 (DeletedBody ''pros_5''),
          \<lparr>prospects = [], prospect_notes = prospect_notes noted_db\<rparr>)
   \<and> map prospectId (prospect_notes noted_db) = [''pros_5'']"
  by (simp add: DELETE_prospect_def delete_prospect_def getProspectById_def PATCH_archive_def
      lifecycle_update_def update_prospect_def noted_db_def blank_row_def respond_def)

section \<open>Bulk import: response and insert\<close>

lemma insert_all_fresh:
  "distinct (map row_id (prospects db @ vs))
   \<Longrightarrow> insert_all db vs = Some (db\<lparr>prospects := prospects db @ vs\<rparr>)"
proof (induction vs arbitrary: db)
  case Nil
  then show ?case by simp
next
  case (Cons v vs)
  let ?db1 = "db\<lparr>prospects := prospects db @ [v]\<rparr>"
  from Cons.prems have "insert_prospect db v = Some ?db1"
    by (auto simp: insert_prospect_def)
  moreover from Cons.prems have "distinct (map row_id (prospects ?db1 @ vs))" by simp
  then have "insert_all ?db1 vs = Some (?db1\<lparr>prospects := prospects ?db1 @ vs\<rparr>)"
    by (rule Cons.IH)
  ultimately show ?case by simp
qed

lemma select_inserted:
  "distinct (map row_id (xs @ vs)) \<Longrightarrow> filter (\<lambda>r. row_id r \<in> row_id ` set vs) xs = []"
  by (auto simp: filter_empty_conv)

lemma bulk_loop_skip_unnamed:
  "\<not> (js_truthy raw \<and> typeof_object raw \<and> hasIdentifier raw)
   \<Longrightarrow> bulk_loop h g t s ex su (raw # rest) seen vs = bulk_loop h g t s ex su rest seen vs"
  by auto

lemma bulk_filter_Nil: "bulk_filter h g t s rows [] = []"
  by (simp add: bulk_filter_def split: prod.splits)

lemma POST_bulk_array:
  "js_field b ''prospects'' = JArr raws \<Longrightarrow> raws \<noteq> []
   \<Longrightarrow> POST_bulk h g t s b db =
       (let validProspects = bulk_filter h g t s (prospects db) raws
        in if validProspects = []
           then Inr (respond 400 (ErrorBody ''No valid prospects to import''), db)
           else (case insert_all db validProspects of
                   None \<Rightarrow> Inl UnobservedInsertError
                 | Some db' \<Rightarrow>
                     Inr (respond 201
                            (RowsBody (filter (\<lambda>r. row_id r \<in> set (map row_id validProspects))
                                         (prospects db'))),
                          db')))"
  unfolding POST_bulk_def js_field_body by simp

lemma POST_bulk_no_array:
  "\<forall>raws. js_field b ''prospects'' = JArr raws \<longrightarrow> raws = []
   \<Longrightarrow> POST_bulk h g t s b db = Inr (respond 400 (ErrorBody ''prospects array is required''), db)"
  unfolding POST_bulk_def js_field_body by (simp split: jsval.splits)

lemma POST_bulk_headers: "POST_bulk h g t s b db = Inr (res, db') \<Longrightarrow> headers res = []"
  unfolding POST_bulk_def Let_def
  by (auto simp: respond_def split: jsval.splits if_splits option.splits)

text \<open>
  C6. A bulk import that admits no row is answered with 400 and inserts nothing: that is
  so for a payload whose \<^verbatim>\<open>prospects\<close> is missing, not an array or empty, and for one
  whose rows are all passed over, such as the single row with empty companyName,
  contactName and email. When rows are admitted, all of them are appended to the table
  and returned with 201; the identifiers generated for them are assumed to be unused and
  different from each other.
\<close>

theorem bulk_all_or_nothing:
  "((\<forall>raws. js_field b ''prospects'' = JArr raws \<longrightarrow> bulk_filter h g t s (prospects db) raws = [])
      \<longrightarrow> (\<exists>msg. POST_bulk h g t s b db = Inr (respond 400 (ErrorBody msg), db)))
   \<and> (js_field b ''prospects'' = JArr raws \<and> bulk_filter h g t s (prospects db) raws = vs
       \<and> vs \<noteq> [] \<and> distinct (map row_id (prospects db @ vs))
      \<longrightarrow> POST_bulk h g t s b db
          = Inr (respond 201 (RowsBody vs), db\<lparr>prospects := prospects db @ vs\<rparr>))
   \<and> POST_bulk h g t s (JObj [(''prospects'', JArr [unnamed_import])]) db
       = Inr (respond 400 (ErrorBody ''No valid prospects to import''), db)"
proof -
  have none: "\<exists>msg. POST_bulk h g t s b db = Inr (respond 400 (ErrorBody msg), db)"
    if z: "\<forall>raws. js_field b ''prospects'' = JArr raws \<longrightarrow> bulk_filter h g t s (prospects db) raws = []"
  proof (cases "\<exists>raws. js_field b ''prospects'' = JArr raws \<and> raws \<noteq> []")
    case True
    then obtain raws where r: "js_field b ''prospects'' = JArr raws" "raws \<noteq> []" by blast
    with z have "bulk_filter h g t s (prospects db) raws = []" by blast
    with r show ?thesis by (auto simp: POST_bulk_array)
  next
    case False
    then have "\<forall>raws. js_field b ''prospects'' = JArr raws \<longrightarrow> raws = []" by blast
    then show ?thesis by (auto simp: POST_bulk_no_array)
  qed
  have some: "POST_bulk h g t s b db
          = Inr (respond 201 (RowsBody vs), db\<lparr>prospects := prospects db @ vs\<rparr>)"
    if r: "js_field b ''prospects'' = JArr raws" and f: "bulk_filter h g t s (prospects db) raws = vs"
      and v: "vs \<noteq> []" and d: "distinct (map row_id (prospects db @ vs))"
  proof -
    from f v have "raws \<noteq> []" by (auto simp: bulk_filter_Nil)
    with r f v show ?thesis
      by (simp add: POST_bulk_array insert_all_fresh[OF d] select_inserted[OF d])
  qed
  have "\<not> hasIdentifier unnamed_import"
    by (simp add: hasIdentifier_def has_text_def unnamed_import_def)
  then have "bulk_filter h g t s (prospects db) [unnamed_import] = []"
    by (simp add: bulk_filter_def split: prod.splits)
  then have ex: "POST_bulk h g t s (JObj [(''prospects'', JArr [unnamed_import])]) db
       = Inr (respond 400 (ErrorBody ''No valid prospects to import''), db)"
    by (simp add: POST_bulk_array)
  from none some ex show ?thesis by blast
qed


section \<open>Bulk import: the filter\<close>

lemma key_shapes_differ: "keyEmail a = Some k \<Longrightarrow> keyDomain d n \<noteq> Some k"
  by (auto simp: keyEmail_def keyDomain_def split: if_splits)

lemma set_row_keys:
  "set (row_keys r) =
     {k. keyEmail (normalizedEmail r) = Some k
         \<or> keyDomain (normalizedDomain r) (normalizedContactName r) = Some k}"
  by (auto simp: row_keys_def split: option.splits)

lemma distinct_row_keys: "distinct (row_keys r)"
  using key_shapes_differ[of "normalizedEmail r" _ "normalizedDomain r" "normalizedContactName r"]
  by (auto simp: row_keys_def split: option.splits)

lemma bulk_row_keys:
  "row_keys (bulk_row h t s i raw) = row_keys (bulk_row h t s j raw)"
  by (simp add: row_keys_def bulk_row_def)

lemma duplicateKey_row:
  "duplicateKey ex seen (keyEmail (normalizedEmail r))
       (keyDomain (normalizedDomain r) (normalizedContactName r))
     = (set (row_keys r) \<inter> (dom ex \<union> seen) \<noteq> {})"
  by (auto simp: duplicateKey_def map_has_def set_has_def set_row_keys split: option.splits)

lemma suppressedHit_row:
  "suppressedHit su (keyEmail (normalizedEmail r))
       (keyDomain (normalizedDomain r) (normalizedContactName r))
     = (set (row_keys r) \<inter> su \<noteq> {})"
  by (auto simp: suppressedHit_def set_has_def set_row_keys split: option.splits)

lemma add_keys_row:
  "add_key (keyDomain (normalizedDomain r) (normalizedContactName r))
       (add_key (keyEmail (normalizedEmail r)) seen)
     = seen \<union> set (row_keys r)"
  by (auto simp: add_key_def set_row_keys split: option.splits)

lemma lookup_row_keys:
  "dom (fst (lookup_row r (m, S))) = dom m \<union> set (row_keys r)"
  "snd (lookup_row r (m, S)) = S \<union> (if truthy_opt (suppressedAt r) then set (row_keys r) else {})"
  by (auto simp: lookup_row_def Let_def set_key_def add_key_def set_row_keys split: option.splits)

lemma fold_lookup_row:
  "dom (fst (fold lookup_row rows (m, S))) = dom m \<union> (\<Union>r\<in>set rows. set (row_keys r))
   \<and> snd (fold lookup_row rows (m, S))
       = S \<union> (\<Union>r\<in>{r \<in> set rows. truthy_opt (suppressedAt r)}. set (row_keys r))"
proof (induction rows arbitrary: m S)
  case Nil
  then show ?case by simp
next
  case (Cons r rows)
  obtain m' S' where l: "lookup_row r (m, S) = (m', S')" by (cases "lookup_row r (m, S)")
  from lookup_row_keys[of r m S] l have
    "dom m' = dom m \<union> set (row_keys r)"
    "S' = S \<union> (if truthy_opt (suppressedAt r) then set (row_keys r) else {})" by simp_all
  with Cons.IH[of m' S'] l show ?case by auto
qed

lemma build_lookups_keys:
  "dom (fst (build_lookups rows)) = (\<Union>r\<in>set rows. set (row_keys r))"
  "snd (build_lookups rows) = (\<Union>r\<in>{r \<in> set rows. truthy_opt (suppressedAt r)}. set (row_keys r))"
  using fold_lookup_row[of rows Map.empty "{}"] by (simp_all add: build_lookups_def)

lemma bulk_loop_Cons:
  "bulk_loop h g t s ex su (raw # rest) seen vs =
     (let row = bulk_row h t s (g (length vs)) raw in
      if js_truthy raw \<and> typeof_object raw \<and> hasIdentifier raw
         \<and> set (row_keys row) \<inter> (dom ex \<union> seen \<union> su) = {}
      then bulk_loop h g t s ex su rest (seen \<union> set (row_keys row)) (vs @ [row])
      else bulk_loop h g t s ex su rest seen vs)"
  by (simp add: Let_def duplicateKey_row suppressedHit_row add_keys_row Int_Un_distrib)

lemma bulk_loop_inv:
  "distinct (concat (map row_keys vs)) \<Longrightarrow> set (concat (map row_keys vs)) \<subseteq> seen
   \<Longrightarrow> set (concat (map row_keys vs)) \<inter> (dom ex \<union> su) = {}
   \<Longrightarrow> distinct (concat (map row_keys (bulk_loop h g t s ex su raws seen vs)))
       \<and> set (concat (map row_keys (bulk_loop h g t s ex su raws seen vs))) \<inter> (dom ex \<union> su) = {}"
proof (induction raws arbitrary: seen vs)
  case Nil
  then show ?case by simp
next
  case (Cons raw raws)
  let ?row = "bulk_row h t s (g (length vs)) raw"
  show ?case
  proof (cases "js_truthy raw \<and> typeof_object raw \<and> hasIdentifier raw
         \<and> set (row_keys ?row) \<inter> (dom ex \<union> seen \<union> su) = {}")
    case True
    then have fresh: "set (row_keys ?row) \<inter> (dom ex \<union> seen \<union> su) = {}" by simp
    have d: "distinct (concat (map row_keys (vs @ [?row])))"
      using Cons.prems(1,2) fresh by (auto simp: distinct_row_keys)
    have s: "set (concat (map row_keys (vs @ [?row]))) \<subseteq> seen \<union> set (row_keys ?row)"
      using Cons.prems(2) by auto
    have e: "set (concat (map row_keys (vs @ [?row]))) \<inter> (dom ex \<union> su) = {}"
      using Cons.prems(3) fresh by auto
    from True have step: "bulk_loop h g t s ex su (raw # raws) seen vs
        = bulk_loop h g t s ex su raws (seen \<union> set (row_keys ?row)) (vs @ [?row])"
      by (simp add: bulk_loop_Cons Let_def del: bulk_loop.simps)
    show ?thesis unfolding step using d s e by (rule Cons.IH)
  next
    case False
    then have step: "bulk_loop h g t s ex su (raw # raws) seen vs
        = bulk_loop h g t s ex su raws seen vs"
      unfolding bulk_loop_Cons[of h g t s ex su raw raws seen vs] Let_def by (rule if_not_P)
    show ?thesis unfolding step using Cons.prems by (rule Cons.IH)
  qed
qed

lemma bulk_filter_loop:
  "bulk_filter h g t s rows raws
     = bulk_loop h g t s (fst (build_lookups rows)) (snd (build_lookups rows)) raws {} []"
  by (simp add: bulk_filter_def split: prod.splits)

lemma bulk_loop_drop:
  "(\<And>seen vs rest. bulk_loop h g t s ex su (raw # rest) seen vs = bulk_loop h g t s ex su rest seen vs)
   \<Longrightarrow> bulk_loop h g t s ex su (pre @ raw # post) seen vs
       = bulk_loop h g t s ex su (pre @ post) seen vs"
proof (induction pre arbitrary: seen vs)
  case Nil
  then show ?case by simp
next
  case (Cons x pre)
  from Cons.IH[OF Cons.prems] show ?case
    by (simp only: append_Cons bulk_loop_Cons[of h g t s ex su x] Let_def)
qed

lemma POST_bulk_admitted:
  assumes r: "js_field b ''prospects'' = JArr raws"
    and f: "bulk_filter h g t s (prospects db) raws = vs"
    and v: "vs \<noteq> []" and d: "distinct (map row_id (prospects db @ vs))"
  shows "POST_bulk h g t s b db
          = Inr (respond 201 (RowsBody vs), db\<lparr>prospects := prospects db @ vs\<rparr>)"
proof -
  from f v have "raws \<noteq> []" by (auto simp: bulk_filter_Nil)
  with r f v show ?thesis
    by (simp add: POST_bulk_array insert_all_fresh[OF d] select_inserted[OF d])
qed

lemma POST_bulk_rejected:
  "bulk_filter h g t s (prospects db) (raw # raws) = []
   \<Longrightarrow> POST_bulk h g t s (JObj [(''prospects'', JArr (raw # raws))]) db
       = Inr (respond 400 (ErrorBody ''No valid prospects to import''), db)"
  by (simp add: POST_bulk_array)

lemmas bulk_eval = bulk_filter_def build_lookups_def lookup_row_def keyEmail_def keyDomain_def
  set_key_def add_key_def hasIdentifier_def has_text_def bulk_row_def duplicateKey_def
  suppressedHit_def map_has_def set_has_def

lemma has_text_email: "normalizeEmail (JStr e) \<noteq> None \<Longrightarrow> has_text (JStr e)"
  by (auto simp: normalizeEmail_def has_text_def toLowerCase_def Let_def split: if_splits)

lemma suppressed_in_existing: "snd (build_lookups rows) \<subseteq> dom (fst (build_lookups rows))"
  unfolding build_lookups_keys by blast

lemma bulk_row_fields:
  "normalizedEmail (bulk_row h t s i raw) = normalizeEmail (js_field raw ''email'')"
  "normalizedDomain (bulk_row h t s i raw) =
     extractDomainFromWebsiteOrEmail h (js_field raw ''website'') (js_field raw ''email'')"
  "normalizedContactName (bulk_row h t s i raw) = normalizeName (js_field raw ''contactName'')"
  "row_id (bulk_row h t s i raw) = i"
  by (simp_all add: bulk_row_def)

text \<open>
  C4. Within one bulk import the keys of the admitted rows are pairwise different, so no
  two admitted rows share an email key or a domain and name key; and no admitted row has
  a key of a row that was in the table before, because the set of keys seen in the batch
  and the snapshot are asked with the same keys. For a batch of two rows with the same
  email, where the first row has no key of a stored row, exactly the first is admitted.
\<close>

theorem bulk_admits_no_collision:
  "distinct (concat (map row_keys (bulk_filter h g t s rows raws)))
   \<and> (\<forall>v\<in>set (bulk_filter h g t s rows raws). \<forall>r\<in>set rows.
         set (row_keys v) \<inter> set (row_keys r) = {})
   \<and> (js_field r1 ''email'' = JStr e \<and> js_field r2 ''email'' = JStr e
       \<and> normalizeEmail (JStr e) \<noteq> None
       \<and> (\<forall>r\<in>set rows. set (row_keys (bulk_row h t s (g 0) r1)) \<inter> set (row_keys r) = {})
      \<longrightarrow> bulk_filter h g t s rows [r1, r2] = [bulk_row h t s (g 0) r1])"
proof -
  let ?ex = "fst (build_lookups rows)" and ?su = "snd (build_lookups rows)"
  let ?out = "bulk_filter h g t s rows raws"
  have inv: "distinct (concat (map row_keys ?out))
      \<and> set (concat (map row_keys ?out)) \<inter> (dom ?ex \<union> ?su) = {}"
    unfolding bulk_filter_loop by (rule bulk_loop_inv) simp_all
  then have a: "distinct (concat (map row_keys ?out))" by simp
  have b: "set (row_keys v) \<inter> set (row_keys r) = {}" if "v \<in> set ?out" "r \<in> set rows" for v r
  proof -
    from that(1) have "set (row_keys v) \<subseteq> set (concat (map row_keys ?out))" by auto
    moreover from that(2) have "set (row_keys r) \<subseteq> dom ?ex" by (auto simp: build_lookups_keys)
    ultimately show ?thesis using inv by blast
  qed
  have c: "bulk_filter h g t s rows [r1, r2] = [bulk_row h t s (g 0) r1]"
    if e1: "js_field r1 ''email'' = JStr e" and e2: "js_field r2 ''email'' = JStr e"
      and ne: "normalizeEmail (JStr e) \<noteq> None"
      and fresh: "\<forall>r\<in>set rows. set (row_keys (bulk_row h t s (g 0) r1)) \<inter> set (row_keys r) = {}"
  proof -
    let ?row1 = "bulk_row h t s (g 0) r1" and ?row2 = "bulk_row h t s (g (Suc 0)) r2"
    from e1 obtain kvs1 where "r1 = JObj kvs1" by (cases r1) auto
    then have o1: "js_truthy r1" "typeof_object r1" by simp_all
    from e1 ne have i1: "hasIdentifier r1" by (simp add: hasIdentifier_def has_text_email)
    from fresh have "set (row_keys ?row1) \<inter> dom ?ex = {}" by (auto simp: build_lookups_keys)
    with suppressed_in_existing[of rows]
    have f1: "set (row_keys ?row1) \<inter> (dom ?ex \<union> {} \<union> ?su) = {}" by blast
    from ne obtain k where k: "normalizeEmail (JStr e) = Some k" by auto
    then have "k \<noteq> []" by (auto simp: normalizeEmail_def Let_def split: if_splits)
    with k e1 e2 have "''email:'' @ k \<in> set (row_keys ?row1)" "''email:'' @ k \<in> set (row_keys ?row2)"
      by (simp_all add: set_row_keys bulk_row_fields keyEmail_def)
    then have f2: "set (row_keys ?row2) \<inter> (dom ?ex \<union> ({} \<union> set (row_keys ?row1)) \<union> ?su) \<noteq> {}"
      by blast
    have s1: "bulk_loop h g t s ?ex ?su [r1, r2] {} []
        = bulk_loop h g t s ?ex ?su [r2] ({} \<union> set (row_keys ?row1)) ([] @ [?row1])"
      using o1 i1 f1 by (simp add: bulk_loop_Cons Let_def del: bulk_loop.simps)
    have s2: "bulk_loop h g t s ?ex ?su [r2] ({} \<union> set (row_keys ?row1)) ([] @ [?row1])
        = bulk_loop h g t s ?ex ?su [] ({} \<union> set (row_keys ?row1)) ([] @ [?row1])"
      unfolding bulk_loop_Cons[of h g t s ?ex ?su r2 "[]"] Let_def
      using f2 by (intro if_not_P) simp
    show ?thesis unfolding bulk_filter_loop s1 s2 by simp
  qed
  from a b c show ?thesis by blast
qed

lemma sam_alone:
  "bulk_filter plain_hostname demo_gen t s (prospects jane_db) [sam_import]
     = [bulk_row plain_hostname t s ''pros_new'' sam_import]"
  by (simp add: bulk_eval jane_db_def jane_row_def blank_row_def sam_import_def demo_gen_def
      normalize_eval string_eval)

theorem bulk_admits_no_collision_witness:
  "bulk_filter plain_hostname demo_gen ''2025-06-01 12:00:00'' ''src_1'' (prospects jane_db)
       [sam_import, sam_import]
     = [bulk_row plain_hostname ''2025-06-01 12:00:00'' ''src_1'' ''pros_new'' sam_import]"
proof -
  have e: "js_field sam_import ''email'' = JStr ''Sam@Corp.io''" by (simp add: sam_import_def)
  have n: "normalizeEmail (JStr ''Sam@Corp.io'') \<noteq> None" by (simp add: normalizeEmail_def string_eval)
  have f: "\<forall>r\<in>set (prospects jane_db).
      set (row_keys (bulk_row plain_hostname ''2025-06-01 12:00:00'' ''src_1'' (demo_gen 0) sam_import))
        \<inter> set (row_keys r) = {}"
    by (simp add: jane_db_def jane_row_def blank_row_def sam_import_def row_keys_def keyEmail_def
        keyDomain_def bulk_row_def normalize_eval string_eval)
  from bulk_admits_no_collision [where ?r1.0 = sam_import and ?r2.0 = sam_import
      and e = "''Sam@Corp.io''" and rows = "prospects jane_db" and g = demo_gen
      and h = plain_hostname and t = "''2025-06-01 12:00:00''" and s = "''src_1''"] e n f
  show ?thesis by (simp add: demo_gen_def)
qed

text \<open>
  C5. With a suppressed row of domain \<^verbatim>\<open>acme.com\<close> and name \<^verbatim>\<open>jane doe\<close> in the table, an
  import row with the website \<^verbatim>\<open>https://www.ACME.com\<close>, the contact name
  \<^verbatim>\<open>Jane   Doe\<close> and no email normalizes to the same domain and name (the platform
  parser gives the host \<^verbatim>\<open>www.acme.com\<close>), the handler's \<open>suppressedHit\<close> is true
  for it (and so is \<open>duplicateKey\<close>), and it is passed over: the import admits the same
  rows with or without it, and an import of this row alone is answered with 400 and
  inserts nothing.
\<close>

theorem suppressed_match_is_skipped:
  assumes h: "h ''https://www.ACME.com'' = Some ''www.acme.com''"
    and w: "js_field raw ''website'' = JStr ''https://www.ACME.com''"
    and c: "js_field raw ''contactName'' = JStr ''Jane   Doe''"
    and e: "absent_or_empty (js_field raw ''email'')"
    and r: "r \<in> set (prospects db)" "normalizedDomain r = Some ''acme.com''"
      "normalizedContactName r = Some ''jane doe''" "truthy_opt (suppressedAt r)"
  shows "normalizedEmail (bulk_row h t s i raw) = None
    \<and> normalizedDomain (bulk_row h t s i raw) = Some ''acme.com''
    \<and> normalizedContactName (bulk_row h t s i raw) = Some ''jane doe''
    \<and> suppressedHit (snd (build_lookups (prospects db)))
         (keyEmail (normalizedEmail (bulk_row h t s i raw)))
         (keyDomain (normalizedDomain (bulk_row h t s i raw))
            (normalizedContactName (bulk_row h t s i raw)))
    \<and> duplicateKey (fst (build_lookups (prospects db))) seen
         (keyEmail (normalizedEmail (bulk_row h t s i raw)))
         (keyDomain (normalizedDomain (bulk_row h t s i raw))
            (normalizedContactName (bulk_row h t s i raw)))
    \<and> bulk_filter h g t s (prospects db) (pre @ raw # post)
        = bulk_filter h g t s (prospects db) (pre @ post)
    \<and> POST_bulk h g t s (JObj [(''prospects'', JArr [raw])]) db
        = Inr (respond 400 (ErrorBody ''No valid prospects to import''), db)"
proof -
  let ?su = "snd (build_lookups (prospects db))" and ?ex = "fst (build_lookups (prospects db))"
  have ne: "normalizedEmail (bulk_row h t s j raw) = None" for j
    using e by (simp add: bulk_row_fields absent_normalized)
  have nd: "normalizedDomain (bulk_row h t s j raw) = Some ''acme.com''" for j
    using h w by (simp add: bulk_row_fields normalize_eval string_eval)
  have nn: "normalizedContactName (bulk_row h t s j raw) = Some ''jane doe''" for j
    using c by (simp add: bulk_row_fields normalize_eval string_eval)
  have kr: "''dn:acme.com:jane doe'' \<in> set (row_keys r)"
    using r(2,3) by (simp add: set_row_keys keyDomain_def)
  with r(1,4) have ks: "''dn:acme.com:jane doe'' \<in> ?su"
    unfolding build_lookups_keys by blast
  have kc: "''dn:acme.com:jane doe'' \<in> set (row_keys (bulk_row h t s j raw))" for j
    by (simp add: set_row_keys keyDomain_def nd nn)
  have hit: "suppressedHit ?su (keyEmail (normalizedEmail (bulk_row h t s j raw)))
         (keyDomain (normalizedDomain (bulk_row h t s j raw))
            (normalizedContactName (bulk_row h t s j raw)))" for j
    unfolding suppressedHit_row using ks kc[of j] by blast
  from suppressed_in_existing[of "prospects db"] ks have ke: "''dn:acme.com:jane doe'' \<in> dom ?ex"
    by blast
  have dup: "duplicateKey ?ex seen (keyEmail (normalizedEmail (bulk_row h t s j raw)))
         (keyDomain (normalizedDomain (bulk_row h t s j raw))
            (normalizedContactName (bulk_row h t s j raw)))" for j
    unfolding duplicateKey_row using ke kc[of j] by blast
  have skip: "bulk_loop h g t s ?ex ?su (raw # rest) seen vs = bulk_loop h g t s ?ex ?su rest seen vs"
    for rest seen vs
    unfolding bulk_loop_Cons[of h g t s ?ex ?su raw rest seen vs] Let_def
    using ks kc[of "g (length vs)"] by (intro if_not_P) blast
  have drop: "bulk_filter h g t s (prospects db) (pre @ raw # post)
        = bulk_filter h g t s (prospects db) (pre @ post)"
    unfolding bulk_filter_loop using skip by (rule bulk_loop_drop)
  have "bulk_filter h g t s (prospects db) [raw] = []"
    unfolding bulk_filter_loop skip by simp
  then have rej: "POST_bulk h g t s (JObj [(''prospects'', JArr [raw])]) db
        = Inr (respond 400 (ErrorBody ''No valid prospects to import''), db)"
    by (rule POST_bulk_rejected)
  from ne nd nn hit dup drop rej show ?thesis by blast
qed

theorem suppressed_match_is_skipped_witness:
  "bulk_filter plain_hostname demo_gen ''2025-06-01 12:00:00'' ''src_1'' [acme_suppressed]
       [acme_import, sam_import]
     = bulk_filter plain_hostname demo_gen ''2025-06-01 12:00:00'' ''src_1'' [acme_suppressed]
       [sam_import]
   \<and> POST_bulk plain_hostname demo_gen ''2025-06-01 12:00:00'' ''src_1''
         (JObj [(''prospects'', JArr [acme_import])])
         \<lparr>prospects = [acme_suppressed], prospect_notes = []\<rparr>
       = Inr (respond 400 (ErrorBody ''No valid prospects to import''),
              \<lparr>prospects = [acme_suppressed], prospect_notes = []\<rparr>)"
proof -
  have h: "plain_hostname ''https://www.ACME.com'' = Some ''www.acme.com''"
    by (simp add: plain_hostname_def string_eval)
  have f: "js_field acme_import ''website'' = JStr ''https://www.ACME.com''"
    "js_field acme_import ''contactName'' = JStr ''Jane   Doe''"
    "absent_or_empty (js_field acme_import ''email'')"
    by (simp_all add: acme_import_def absent_or_empty_def)
  have r: "acme_suppressed \<in> set (prospects \<lparr>prospects = [acme_suppressed], prospect_notes = []\<rparr>)"
    "normalizedDomain acme_suppressed = Some ''acme.com''"
    "normalizedContactName acme_suppressed = Some ''jane doe''"
    "truthy_opt (suppressedAt acme_suppressed)"
    by (simp_all add: acme_suppressed_def blank_row_def)
  from suppressed_match_is_skipped [where h = plain_hostname and raw = acme_import
      and r = acme_suppressed and db = "\<lparr>prospects = [acme_suppressed], prospect_notes = []\<rparr>"
      and t = "''2025-06-01 12:00:00''" and s = "''src_1''" and g = demo_gen
      and pre = "[]" and post = "[sam_import]", OF h f r]
  show ?thesis by simp
qed

section \<open>The fallback key beside an email key\<close>

text \<open>
  C1. A candidate whose email matches no stored row is still stopped by its domain and
  name pair. Jane Doe of acme.com is stored with the email \<^verbatim>\<open>jane@acme.com\<close>; a request
  for Jane Doe with the email \<^verbatim>\<open>j.doe@acme.com\<close> has an email key that no row has,
  yet the single-create path answers 409 with the id of the stored row and the bulk path
  passes the row over. Both paths consult the domain and name key although the email key
  is present.
\<close>

theorem fallback_blocks_new_email:
  "normalizedEmail (single_row h i t other_jane) = Some ''j.doe@acme.com''
   \<and> select_by_email jane_db ''j.doe@acme.com'' = None
   \<and> POST_prospects h i t other_jane jane_db = (respond 409 (DuplicateBody ''pros_1''), jane_db)
   \<and> POST_bulk h g t s (JObj [(''prospects'', JArr [other_jane])]) jane_db
       = Inr (respond 400 (ErrorBody ''No valid prospects to import''), jane_db)"
proof -
  have keys: "normalizeEmail (js_field other_jane ''email'') = Some ''j.doe@acme.com''"
    "extractDomainFromWebsiteOrEmail h (js_field other_jane ''website'') (js_field other_jane ''email'')
       = Some ''acme.com''"
    "normalizeName (js_field other_jane ''contactName'') = Some ''jane doe''"
    by (simp_all add: other_jane_def normalize_eval string_eval)
  have miss: "select_by_email jane_db ''j.doe@acme.com'' = None"
    by (simp add: select_by_email_def jane_db_def jane_row_def blank_row_def)
  have hit: "select_by_domain_name jane_db ''acme.com'' ''jane doe'' = Some jane_row"
    by (simp add: select_by_domain_name_def jane_db_def) (simp add: jane_row_def blank_row_def)
  have "checkDuplicateProspect jane_db (Some ''j.doe@acme.com'') (Some ''acme.com'') (Some ''jane doe'')
      = Some jane_row"
    by (simp add: checkDuplicateProspect_def miss hit)
  then have single: "POST_prospects h i t other_jane jane_db
      = (respond 409 (DuplicateBody (row_id jane_row)), jane_db)"
    by (intro POST_prospects_found) (simp add: keys)
  have "bulk_filter h g t s (prospects jane_db) [other_jane] = []"
    by (simp add: bulk_eval bulk_row_fields jane_db_def jane_row_def blank_row_def)
       (simp add: other_jane_def bulk_eval normalize_eval string_eval)
  then have bulk: "POST_bulk h g t s (JObj [(''prospects'', JArr [other_jane])]) jane_db
       = Inr (respond 400 (ErrorBody ''No valid prospects to import''), jane_db)"
    by (rule POST_bulk_rejected)
  from keys(1) miss single bulk show ?thesis
    by (simp add: single_row_keys jane_row_def blank_row_def)
qed

section \<open>Reporting of a bulk import\<close>

lemma sam_then_unnamed:
  "bulk_filter plain_hostname demo_gen t s (prospects jane_db) [sam_import, unnamed_import]
     = [bulk_row plain_hostname t s ''pros_new'' sam_import]"
  by (simp add: bulk_eval jane_db_def jane_row_def blank_row_def sam_import_def unnamed_import_def
      demo_gen_def normalize_eval string_eval)

text \<open>
  C3. The response of a bulk import carries no header set by the handler. An import of two
  rows, one admitted and one without identifier, is answered with 201 and the inserted
  row, and its header list is empty: no received, valid, inserted or skipped count is
  reported.
\<close>

theorem bulk_import_sets_no_headers:
  "POST_bulk plain_hostname demo_gen ''2025-06-01 12:00:00'' ''src_1''
       (JObj [(''prospects'', JArr [sam_import, unnamed_import])]) jane_db
     = Inr (\<lparr>status_code = 201, headers = [],
             body = RowsBody [bulk_row plain_hostname ''2025-06-01 12:00:00'' ''src_1'' ''pros_new''
                                sam_import]\<rparr>,
            jane_db\<lparr>prospects := prospects jane_db
               @ [bulk_row plain_hostname ''2025-06-01 12:00:00'' ''src_1'' ''pros_new''
                    sam_import]\<rparr>)"
proof -
  have "distinct (map row_id (prospects jane_db
      @ [bulk_row plain_hostname ''2025-06-01 12:00:00'' ''src_1'' ''pros_new'' sam_import]))"
    by (simp add: jane_db_def jane_row_def blank_row_def bulk_row_fields)
  from POST_bulk_admitted [OF _ sam_then_unnamed _ this]
  show ?thesis by (simp add: respond_def)
qed

theorem bulk_all_or_nothing_witness:
  "POST_bulk plain_hostname demo_gen ''2025-06-01 12:00:00'' ''src_1''
       (JObj [(''prospects'', JArr [sam_import])]) jane_db
     = Inr (respond 201
              (RowsBody [bulk_row plain_hostname ''2025-06-01 12:00:00'' ''src_1'' ''pros_new''
                           sam_import]),
            jane_db\<lparr>prospects := prospects jane_db
               @ [bulk_row plain_hostname ''2025-06-01 12:00:00'' ''src_1'' ''pros_new''
                    sam_import]\<rparr>)"
proof -
  have d: "distinct (map row_id (prospects jane_db
      @ [bulk_row plain_hostname ''2025-06-01 12:00:00'' ''src_1'' ''pros_new'' sam_import]))"
    by (simp add: jane_db_def jane_row_def blank_row_def bulk_row_fields)
  from bulk_all_or_nothing [where b = "JObj [(''prospects'', JArr [sam_import])]"
      and raws = "[sam_import]" and db = jane_db and h = plain_hostname and g = demo_gen
      and t = "''2025-06-01 12:00:00''" and s = "''src_1''"
      and vs = "[bulk_row plain_hostname ''2025-06-01 12:00:00'' ''src_1'' ''pros_new'' sam_import]",
      THEN conjunct2, THEN conjunct1] sam_alone d
  show ?thesis by simp
qed

end
